theory Spec2Isabelle
  imports
    Complex_Main
    "HOL-Library.Word"
    "HOL-Library.List_Lexorder"
    "HOL-Library.Multiset"
    "HOL-Library.AList"
begin

unbundle bit_operations_syntax

section \<open>Strings and numbers of the host language\<close>

text \<open>
  A TypeScript string is a sequence of UTF-16 code units: \<^verbatim>\<open>str.length\<close> counts them and
  \<^verbatim>\<open>str.charCodeAt(i)\<close> reads one. The order that \<^verbatim>\<open>Array.prototype.sort\<close> uses without a
  comparator is the lexicographic order on code units, which is the order of
  \<^theory_text>\<open>List_Lexorder\<close> over the unsigned order of words.
\<close>

type_synonym jsstring = "16 word list"

definition js :: "string \<Rightarrow> jsstring" where
  "js s = map of_char s"

text \<open>
  A number is a double. Every value below is an integer of magnitude under \<open>2 ^ 53\<close>
  (lemma \<open>hashStep_exact\<close>), where double arithmetic is exact, so it is an \<^typ>\<open>int\<close>.
  The bitwise operators convert their operands with ToInt32 and give a signed 32-bit result;
  \<^verbatim>\<open>>>>\<close> gives an unsigned one.
\<close>

definition js_xor :: "int \<Rightarrow> int \<Rightarrow> int" where
  "js_xor a b = sint ((word_of_int a :: 32 word) XOR word_of_int b)"

definition js_shl :: "int \<Rightarrow> nat \<Rightarrow> int" where
  "js_shl a n = sint (push_bit (n mod 32) (word_of_int a :: 32 word))"

definition js_ushr :: "int \<Rightarrow> nat \<Rightarrow> int" where
  "js_ushr a n = uint (drop_bit (n mod 32) (word_of_int a :: 32 word))"

text \<open>\<^verbatim>\<open>Number.prototype.toString(radix)\<close> on a non-negative integer: digits \<open>0-9a-z\<close>,
  most significant first, no leading zero.\<close>

definition digitChar :: "nat \<Rightarrow> 16 word" where
  "digitChar d = (if d < 10 then of_nat (48 + d) else of_nat (87 + d))"

fun toStringRadix :: "nat \<Rightarrow> nat \<Rightarrow> jsstring" where
  "toStringRadix r n =
     (if r < 2 \<or> n < r then [digitChar n]
      else toStringRadix r (n div r) @ [digitChar (n mod r)])"

declare toStringRadix.simps [simp del]

text \<open>\<^verbatim>\<open>Array.prototype.join(sep)\<close>.\<close>

fun joinWith :: "jsstring \<Rightarrow> jsstring list \<Rightarrow> jsstring" where
  "joinWith sep [] = []"
| "joinWith sep [x] = x"
| "joinWith sep (x # y # ys) = x @ sep @ joinWith sep (y # ys)"

section \<open>Fingerprint of a URL list (services/cacheService.ts)\<close>

text \<open>
  \<^verbatim>\<open>
  function simpleHash(str: string): string {
    let hash = 2166136261; // FNV offset basis
    for (let i = 0; i < str.length; i++) {
      hash ^= str.charCodeAt(i);
      hash += (hash << 1) + (hash << 4) + (hash << 7) + (hash << 8) + (hash << 24);
    }
    return (hash >>> 0).toString(36);
  }\<close>
\<close>

definition hashStep :: "int \<Rightarrow> 16 word \<Rightarrow> int" where
  "hashStep hash c =
     (let h = js_xor hash (uint c)
      in h + (js_shl h 1 + js_shl h 4 + js_shl h 7 + js_shl h 8 + js_shl h 24))"

definition simpleHash :: "jsstring \<Rightarrow> jsstring" where
  "simpleHash str = toStringRadix 36 (nat (js_ushr (foldl hashStep 2166136261 str) 0))"

text \<open>
  \<^verbatim>\<open>
  function generateUrlsHash(urls: string[]): string {
    const sortedUrls = [...urls].sort();
    const urlString = sortedUrls.join('|');
    return simpleHash(urlString);
  }\<close>
\<close>

definition generateUrlsHash :: "jsstring list \<Rightarrow> jsstring" where
  "generateUrlsHash urls =
     (let sortedUrls = sort urls;
          urlString = joinWith (js ''|'') sortedUrls
      in simpleHash urlString)"

subsection \<open>The hash of the specification: 32-bit FNV-1a\<close>

text \<open>
  The specification's words, as a second definition to compare \<open>simpleHash\<close> with:
  offset basis 2166136261; each byte is xor-ed into the accumulator, which is then multiplied
  by the FNV prime 16777619 in unsigned 32-bit arithmetic.
\<close>

definition fnvOffsetBasis :: "32 word" where
  "fnvOffsetBasis = 2166136261"

definition fnvPrime :: "32 word" where
  "fnvPrime = 16777619"

fun fnv1a32 :: "32 word \<Rightarrow> 8 word list \<Rightarrow> 32 word" where
  "fnv1a32 acc [] = acc"
| "fnv1a32 acc (b # bs) = fnv1a32 ((acc XOR ucast b) * fnvPrime) bs"

text \<open>The same mixing over whole UTF-16 code units, which is what \<^verbatim>\<open>charCodeAt\<close> feeds in.\<close>

definition fnvUnits :: "32 word \<Rightarrow> jsstring \<Rightarrow> 32 word" where
  "fnvUnits acc str = foldl (\<lambda>h c. (h XOR ucast c) * fnvPrime) acc str"

section \<open>The result cache (services/cacheService.ts)\<close>

definition CACHE_PREFIX :: jsstring where
  "CACHE_PREFIX = js ''seo-analyzer-cache-v1''"

definition DEFAULT_TTL_MS :: int where
  "DEFAULT_TTL_MS = 7 * 24 * 60 * 60 * 1000"

definition MAX_CACHE_SIZE :: int where
  "MAX_CACHE_SIZE = 50"

record ('a, 'b) CachedAnalysis =
  domain :: jsstring
  urlsHash :: jsstring
  timestamp :: int
  ttl :: int
  sitewide :: 'a
  seo :: 'b

record CacheMetadata =
  version :: jsstring
  lastCleanup :: int
  entries :: int

subsection \<open>The browser: localStorage and the timer queue\<close>

text \<open>
  localStorage holds strings, which the code reads with \<^verbatim>\<open>JSON.parse\<close> and writes with
  \<^verbatim>\<open>JSON.stringify\<close>. An item is modelled by what \<^verbatim>\<open>JSON.parse\<close> makes of it: the value
  that was written (the payloads are JSON data, which \<^verbatim>\<open>JSON.stringify\<close> and \<^verbatim>\<open>JSON.parse\<close>
  give back as they were), or \<open>Unparsable\<close> for a string on which \<^verbatim>\<open>JSON.parse\<close> throws. The
  payload types \<^verbatim>\<open>SitewideAnalysis\<close> and \<^verbatim>\<open>SeoAnalysisResult\<close> are the type parameters \<open>'a\<close>
  and \<open>'b\<close>. The item under the key \<^verbatim>\<open>seo-analyzer-cache-v1:metadata\<close> is the field
  \<open>metadataItem\<close>, which no key of an analysis reaches (lemma
  \<open>generateCacheKey_neq_metadataKey\<close>); the items under every other key are the association
  list \<open>items\<close>, in the order of \<^verbatim>\<open>localStorage.key(i)\<close>. A storage has no key twice, and
  \<open>AList.update\<close> and \<open>AList.delete\<close> keep it so. The empty string, which the tests
  \<^verbatim>\<open>if (data)\<close> treat as absent, is never written by the code and is in no state of the model.

  \<open>timers\<close> is the queue of callbacks handed to \<^verbatim>\<open>setTimeout(..., 0)\<close> that have not run yet.
\<close>

datatype 'x parsed = Unparsable | Parsed 'x

datatype task = CleanupExpiredEntries | EnforceCacheLimit

record ('a, 'b) browser =
  metadataItem :: "CacheMetadata parsed option"
  items :: "(jsstring \<times> ('a, 'b) CachedAnalysis parsed) list"
  timers :: "task list"

text \<open>
  What the host environment decides: the host name that \<^verbatim>\<open>new URL(url)\<close> finds (\<open>None\<close> when
  the constructor throws), and whether \<^verbatim>\<open>localStorage.setItem\<close> throws on a write, given the
  present contents, the key and the value. \<^verbatim>\<open>getItem\<close>, \<^verbatim>\<open>removeItem\<close> and \<^verbatim>\<open>key\<close> do not throw.
\<close>

datatype js_error = QuotaExceededError | OtherError

datatype ('a, 'b) written = EntryJson "('a, 'b) CachedAnalysis" | MetadataJson CacheMetadata

record ('a, 'b) host =
  urlHostname :: "jsstring \<Rightarrow> jsstring option"
  setItemThrows :: "('a, 'b) browser \<Rightarrow> jsstring \<Rightarrow> ('a, 'b) written \<Rightarrow> js_error option"

definition metadataKey :: jsstring where
  "metadataKey = CACHE_PREFIX @ js '':metadata''"

definition getItem :: "('a, 'b) browser \<Rightarrow> jsstring \<Rightarrow> ('a, 'b) CachedAnalysis parsed option" where
  "getItem st key = map_of (items st) key"

definition removeItem :: "jsstring \<Rightarrow> ('a, 'b) browser \<Rightarrow> ('a, 'b) browser" where
  "removeItem key st = st\<lparr>items := AList.delete key (items st)\<rparr>"

definition setItem ::
  "('a, 'b) host \<Rightarrow> jsstring \<Rightarrow> ('a, 'b) CachedAnalysis \<Rightarrow> ('a, 'b) browser
    \<Rightarrow> js_error + ('a, 'b) browser" where
  "setItem H key v st =
     (case setItemThrows H st key (EntryJson v) of
        Some e \<Rightarrow> Inl e
      | None \<Rightarrow> Inr (st\<lparr>items := AList.update key (Parsed v) (items st)\<rparr>))"

definition setMetadataItem ::
  "('a, 'b) host \<Rightarrow> CacheMetadata \<Rightarrow> ('a, 'b) browser \<Rightarrow> js_error + ('a, 'b) browser" where
  "setMetadataItem H m st =
     (case setItemThrows H st metadataKey (MetadataJson m) of
        Some e \<Rightarrow> Inl e
      | None \<Rightarrow> Inr (st\<lparr>metadataItem := Some (Parsed m)\<rparr>))"

definition setTimeout :: "task \<Rightarrow> ('a, 'b) browser \<Rightarrow> ('a, 'b) browser" where
  "setTimeout t st = st\<lparr>timers := timers st @ [t]\<rparr>"

definition startsWith :: "jsstring \<Rightarrow> jsstring \<Rightarrow> bool" where
  "startsWith s p = (take (length p) s = p)"

subsection \<open>Utility functions\<close>

text \<open>
  \<^verbatim>\<open>
  function extractDomain(url: string): string {
    try { const urlObj = new URL(url); return urlObj.hostname; } catch { return url; }
  }
  function generateCacheKey(domain: string, urlsHash: string): string {
    return `${CACHE_PREFIX}:${domain}:${urlsHash}`;
  }\<close>
\<close>

definition extractDomain :: "('a, 'b) host \<Rightarrow> jsstring \<Rightarrow> jsstring" where
  "extractDomain H url = (case urlHostname H url of Some hostname \<Rightarrow> hostname | None \<Rightarrow> url)"

definition generateCacheKey :: "jsstring \<Rightarrow> jsstring \<Rightarrow> jsstring" where
  "generateCacheKey domainName hash = CACHE_PREFIX @ js '':'' @ domainName @ js '':'' @ hash"

text \<open>
  \<^verbatim>\<open>getMetadata\<close> returns the parsed metadata item, and the default
  \<^verbatim>\<open>{ version: '1.0', lastCleanup: Date.now(), entries: 0 }\<close> when there is none or it does not
  parse. \<^verbatim>\<open>updateMetadata(updates)\<close> writes \<^verbatim>\<open>{ ...current, ...updates }\<close> and swallows a failed
  write; the partial record \<open>updates\<close> is the function that overwrites its fields.
\<close>

definition getMetadata :: "int \<Rightarrow> ('a, 'b) browser \<Rightarrow> CacheMetadata" where
  "getMetadata now st =
     (case metadataItem st of
        Some (Parsed data) \<Rightarrow> data
      | _ \<Rightarrow> \<lparr>version = js ''1.0'', lastCleanup = now, entries = 0\<rparr>)"

definition updateMetadata ::
  "('a, 'b) host \<Rightarrow> int \<Rightarrow> (CacheMetadata \<Rightarrow> CacheMetadata) \<Rightarrow> ('a, 'b) browser
    \<Rightarrow> ('a, 'b) browser" where
  "updateMetadata H now updates st =
     (let current = getMetadata now st;
          updated = updates current
      in case setMetadataItem H updated st of Inl e \<Rightarrow> st | Inr st' \<Rightarrow> st')"

text \<open>
  The scan that \<^verbatim>\<open>enforceCacheLimit\<close> and \<^verbatim>\<open>clearOldestEntries\<close> both start with: for every
  key that starts with the prefix and is not the metadata key, the pair
  \<^verbatim>\<open>{ key, timestamp: cached.timestamp }\<close>; an item that does not parse is skipped.
\<close>

fun scanEntries :: "(jsstring \<times> ('a, 'b) CachedAnalysis parsed) list \<Rightarrow> (jsstring \<times> int) list" where
  "scanEntries [] = []"
| "scanEntries ((key, v) # rest) =
     (if startsWith key CACHE_PREFIX \<and> key \<noteq> metadataKey then
        (case v of
           Parsed cached \<Rightarrow> (key, timestamp cached) # scanEntries rest
         | Unparsable \<Rightarrow> scanEntries rest)
      else scanEntries rest)"

definition removeKeys :: "jsstring list \<Rightarrow> ('a, 'b) browser \<Rightarrow> ('a, 'b) browser" where
  "removeKeys keys st = foldl (\<lambda>s key. removeItem key s) st keys"

text \<open>
  \<^verbatim>\<open>
  function cleanupExpiredEntries(): void {
    const now = Date.now();
    const metadata = getMetadata();
    if (now - metadata.lastCleanup < 60 * 60 * 1000) { return; }
    ... for every key with the prefix, not the metadata key:
          expired (now - cached.timestamp > cached.ttl) or unparsable: keysToRemove.push(key)
    keysToRemove.forEach(key => localStorage.removeItem(key));
    updateMetadata({ lastCleanup: now, entries: Math.max(0, metadata.entries - removedCount) });
  }\<close>
\<close>

fun expiredKeys :: "int \<Rightarrow> (jsstring \<times> ('a, 'b) CachedAnalysis parsed) list \<Rightarrow> jsstring list" where
  "expiredKeys now [] = []"
| "expiredKeys now ((key, v) # rest) =
     (if startsWith key CACHE_PREFIX \<and> key \<noteq> metadataKey then
        (case v of
           Parsed cached \<Rightarrow>
             (if now - timestamp cached > ttl cached then key # expiredKeys now rest
              else expiredKeys now rest)
         | Unparsable \<Rightarrow> key # expiredKeys now rest)
      else expiredKeys now rest)"

definition cleanupExpiredEntries :: "('a, 'b) host \<Rightarrow> int \<Rightarrow> ('a, 'b) browser \<Rightarrow> ('a, 'b) browser" where
  "cleanupExpiredEntries H now st =
     (let metadata = getMetadata now st
      in if now - lastCleanup metadata < 60 * 60 * 1000 then st
         else
           let keysToRemove = expiredKeys now (items st);
               removedCount = int (length keysToRemove);
               st1 = removeKeys keysToRemove st
           in updateMetadata H now
                (\<lambda>m. m\<lparr>lastCleanup := now, entries := max 0 (entries metadata - removedCount)\<rparr>) st1)"

text \<open>
  \<^verbatim>\<open>
  function enforceCacheLimit(): void {
    const metadata = getMetadata();
    if (metadata.entries <= MAX_CACHE_SIZE) { return; }
    ... entries := the scan
    entries.sort((a, b) => a.timestamp - b.timestamp);
    const toRemove = entries.length - MAX_CACHE_SIZE;
    if (toRemove > 0) {
      for (let i = 0; i < toRemove; i++) { localStorage.removeItem(entries[i].key); }
      updateMetadata({ entries: MAX_CACHE_SIZE });
    }
  }\<close>
  The sort is stable, as \<^verbatim>\<open>Array.prototype.sort\<close> is.
\<close>

definition enforceCacheLimit :: "('a, 'b) host \<Rightarrow> int \<Rightarrow> ('a, 'b) browser \<Rightarrow> ('a, 'b) browser" where
  "enforceCacheLimit H now st =
     (let metadata = getMetadata now st
      in if entries metadata \<le> MAX_CACHE_SIZE then st
         else
           let es = sort_key snd (scanEntries (items st));
               toRemove = int (length es) - MAX_CACHE_SIZE
           in if toRemove > 0 then
                updateMetadata H now (\<lambda>m. m\<lparr>entries := MAX_CACHE_SIZE\<rparr>)
                  (removeKeys (map fst (take (nat toRemove) es)) st)
              else st)"

definition runTask :: "('a, 'b) host \<Rightarrow> int \<Rightarrow> task \<Rightarrow> ('a, 'b) browser \<Rightarrow> ('a, 'b) browser" where
  "runTask H now t st =
     (case t of
        CleanupExpiredEntries \<Rightarrow> cleanupExpiredEntries H now st
      | EnforceCacheLimit \<Rightarrow> enforceCacheLimit H now st)"

subsection \<open>The class CacheService\<close>

text \<open>
  \<^verbatim>\<open>
  async getAnalysis(domainUrl, urls) {
    setTimeout(() => cleanupExpiredEntries(), 0);
    const domain = extractDomain(domainUrl);
    const urlsHash = generateUrlsHash(urls);
    const cacheKey = generateCacheKey(domain, urlsHash);
    try {
      const cached = localStorage.getItem(cacheKey);
      if (!cached) { return null; }
      const data: CachedAnalysis = JSON.parse(cached);
      const now = Date.now();
      if (now - data.timestamp > data.ttl) { localStorage.removeItem(cacheKey); return null; }
      return { sitewide: data.sitewide, seo: data.seo };
    } catch (e) { return null; }
  }\<close>
  The body has no \<^verbatim>\<open>await\<close>, so it runs to its end before any timer does. The result is the
  value returned and the browser after the call.
\<close>

definition getAnalysis ::
  "('a, 'b) host \<Rightarrow> int \<Rightarrow> jsstring \<Rightarrow> jsstring list \<Rightarrow> ('a, 'b) browser
    \<Rightarrow> ('a \<times> 'b) option \<times> ('a, 'b) browser" where
  "getAnalysis H now domainUrl urls st0 =
     (let st = setTimeout CleanupExpiredEntries st0;
          domainName = extractDomain H domainUrl;
          hash = generateUrlsHash urls;
          cacheKey = generateCacheKey domainName hash
      in case getItem st cacheKey of
           None \<Rightarrow> (None, st)
         | Some Unparsable \<Rightarrow> (None, st)
         | Some (Parsed data) \<Rightarrow>
             (if now - timestamp data > ttl data then (None, removeItem cacheKey st)
              else (Some (sitewide data, seo data), st)))"

text \<open>
  \<^verbatim>\<open>
  private clearOldestEntries(count: number): void {
    ... entries := the scan
    entries.sort((a, b) => a.timestamp - b.timestamp);
    for (let i = 0; i < Math.min(count, entries.length); i++) {
      localStorage.removeItem(entries[i].key);
    }
  }\<close>
\<close>

definition clearOldestEntries :: "nat \<Rightarrow> ('a, 'b) browser \<Rightarrow> ('a, 'b) browser" where
  "clearOldestEntries n st =
     (let es = sort_key snd (scanEntries (items st))
      in removeKeys (map fst (take (min n (length es)) es)) st)"

text \<open>
  \<^verbatim>\<open>
  async setAnalysis(domainUrl, urls, sitewideAnalysis, seoAnalysis, ttl = DEFAULT_TTL_MS) {
    ... domain, urlsHash, cacheKey; cacheEntry with timestamp: Date.now()
    try {
      localStorage.setItem(cacheKey, JSON.stringify(cacheEntry));
      const metadata = getMetadata();
      updateMetadata({ entries: metadata.entries + 1 });
      setTimeout(() => enforceCacheLimit(), 0);
    } catch (e) {
      if (e instanceof Error && e.name === 'QuotaExceededError') {
        this.clearOldestEntries(5);
        try { localStorage.setItem(cacheKey, JSON.stringify(cacheEntry)); }
        catch (retryError) { }
      }
    }
  }\<close>
  \<open>setAnalysis_try\<close> is the \<^verbatim>\<open>try\<close> block, with \<open>Inl\<close> for what it throws, and
  \<open>setAnalysis_catch\<close> the handler. The result of \<open>setAnalysis\<close> is \<open>Inl\<close> when the call
  raises to its caller.
\<close>

definition setAnalysis_try ::
  "('a, 'b) host \<Rightarrow> int \<Rightarrow> jsstring \<Rightarrow> ('a, 'b) CachedAnalysis \<Rightarrow> ('a, 'b) browser
    \<Rightarrow> js_error + ('a, 'b) browser" where
  "setAnalysis_try H now cacheKey cacheEntry st =
     (case setItem H cacheKey cacheEntry st of
        Inl e \<Rightarrow> Inl e
      | Inr st1 \<Rightarrow>
          let metadata = getMetadata now st1;
              st2 = updateMetadata H now (\<lambda>m. m\<lparr>entries := entries metadata + 1\<rparr>) st1
          in Inr (setTimeout EnforceCacheLimit st2))"

definition setAnalysis_catch ::
  "('a, 'b) host \<Rightarrow> jsstring \<Rightarrow> ('a, 'b) CachedAnalysis \<Rightarrow> js_error \<Rightarrow> ('a, 'b) browser
    \<Rightarrow> js_error + ('a, 'b) browser" where
  "setAnalysis_catch H cacheKey cacheEntry e st =
     (if e = QuotaExceededError then
        let st1 = clearOldestEntries 5 st
        in case setItem H cacheKey cacheEntry st1 of
             Inl retryError \<Rightarrow> Inr st1
           | Inr st2 \<Rightarrow> Inr st2
      else Inr st)"

definition setAnalysis ::
  "('a, 'b) host \<Rightarrow> int \<Rightarrow> jsstring \<Rightarrow> jsstring list \<Rightarrow> 'a \<Rightarrow> 'b \<Rightarrow> int \<Rightarrow> ('a, 'b) browser
    \<Rightarrow> js_error + ('a, 'b) browser" where
  "setAnalysis H now domainUrl urls sitewideAnalysis seoAnalysis ttlMs st =
     (let domainName = extractDomain H domainUrl;
          hash = generateUrlsHash urls;
          cacheKey = generateCacheKey domainName hash;
          cacheEntry = \<lparr>domain = domainName, urlsHash = hash, timestamp = now, ttl = ttlMs,
                        sitewide = sitewideAnalysis, seo = seoAnalysis\<rparr>
      in case setAnalysis_try H now cacheKey cacheEntry st of
           Inr st' \<Rightarrow> Inr st'
         | Inl e \<Rightarrow> setAnalysis_catch H cacheKey cacheEntry e st)"

text \<open>
  \<^verbatim>\<open>
  clearAnalysis(domainUrl: string, urls: string[]): void {
    ... domain, urlsHash, cacheKey
    try {
      localStorage.removeItem(cacheKey);
      const metadata = getMetadata();
      updateMetadata({ entries: Math.max(0, metadata.entries - 1) });
    } catch (e) { }
  }\<close>
\<close>

definition clearAnalysis ::
  "('a, 'b) host \<Rightarrow> int \<Rightarrow> jsstring \<Rightarrow> jsstring list \<Rightarrow> ('a, 'b) browser \<Rightarrow> ('a, 'b) browser" where
  "clearAnalysis H now domainUrl urls st =
     (let domainName = extractDomain H domainUrl;
          hash = generateUrlsHash urls;
          cacheKey = generateCacheKey domainName hash;
          st1 = removeItem cacheKey st;
          metadata = getMetadata now st1
      in updateMetadata H now (\<lambda>m. m\<lparr>entries := max 0 (entries metadata - 1)\<rparr>) st1)"

subsection \<open>A sequence of stores\<close>

text \<open>
  A run of the application calls \<^verbatim>\<open>setAnalysis(data.url, urlsFromSitemap, sitewideAnalysis,
  analysis)\<close> with the default time to live; when the call has returned, the event loop runs
  the timers it has queued. \<open>storeAll\<close> is a sequence of such stores, one per request, each
  at its own time.
\<close>

record ('a, 'b) storeRequest =
  reqAt :: int
  reqDomainUrl :: jsstring
  reqUrls :: "jsstring list"
  reqSitewide :: 'a
  reqSeo :: 'b

definition runTimers :: "('a, 'b) host \<Rightarrow> int \<Rightarrow> ('a, 'b) browser \<Rightarrow> ('a, 'b) browser" where
  "runTimers H now st = foldl (\<lambda>s t. runTask H now t s) (st\<lparr>timers := []\<rparr>) (timers st)"

definition storeThenEnforce ::
  "('a, 'b) host \<Rightarrow> ('a, 'b) storeRequest \<Rightarrow> ('a, 'b) browser \<Rightarrow> ('a, 'b) browser" where
  "storeThenEnforce H r st =
     (case setAnalysis H (reqAt r) (reqDomainUrl r) (reqUrls r) (reqSitewide r) (reqSeo r)
             DEFAULT_TTL_MS st of
        Inl e \<Rightarrow> st
      | Inr st1 \<Rightarrow> runTimers H (reqAt r) st1)"

definition storeAll ::
  "('a, 'b) host \<Rightarrow> ('a, 'b) storeRequest list \<Rightarrow> ('a, 'b) browser \<Rightarrow> ('a, 'b) browser" where
  "storeAll H rs st = foldl (\<lambda>s r. storeThenEnforce H r s) st rs"

text \<open>The key under which a request is stored, and the item that \<open>setAnalysis\<close> writes for it.\<close>

definition requestKey :: "('a, 'b) host \<Rightarrow> ('a, 'b) storeRequest \<Rightarrow> jsstring" where
  "requestKey H r = generateCacheKey (extractDomain H (reqDomainUrl r)) (generateUrlsHash (reqUrls r))"

definition requestEntry ::
  "('a, 'b) host \<Rightarrow> ('a, 'b) storeRequest \<Rightarrow> jsstring \<times> ('a, 'b) CachedAnalysis parsed" where
  "requestEntry H r =
     (requestKey H r,
      Parsed \<lparr>domain = extractDomain H (reqDomainUrl r), urlsHash = generateUrlsHash (reqUrls r),
        timestamp = reqAt r, ttl = DEFAULT_TTL_MS, sitewide = reqSitewide r, seo = reqSeo r\<rparr>)"

definition emptyBrowser :: "('a, 'b) browser" where
  "emptyBrowser = \<lparr>metadataItem = None, items = [], timers = []\<rparr>"

text \<open>
  What holds between the stores of \<open>storeAll\<close> in a browser that accepts every write: the
  items are the last 50 of the requests stored so far, in their order, the counter of the
  metadata is their number, and no timer is waiting.
\<close>

definition storeInv :: "('a, 'b) host \<Rightarrow> ('a, 'b) browser \<Rightarrow> ('a, 'b) storeRequest list \<Rightarrow> bool" where
  "storeInv H st past \<longleftrightarrow>
     items st = map (requestEntry H) (drop (length past - 50) past)
     \<and> entries (getMetadata 0 st) = int (min (length past) 50)
     \<and> timers st = []"

section \<open>The pipeline orchestrator (App.tsx)\<close>

subsection \<open>Pipeline types and constants\<close>

datatype PipelineStageStatus = Pending | Running | Complete | Error | Skipped

record PipelineStage =
  id' :: jsstring
  name :: jsstring
  description :: jsstring
  status :: PipelineStageStatus
  progress :: real
  itemsProcessed :: "int option"
  totalItems :: "int option"
  currentTask :: "jsstring option"
  startTime :: "int option"
  endTime :: "int option"

datatype LogType = Info | Success | Warning | ErrorLog | Ai

record ActivityLogEntry =
  timestamp' :: int
  message :: jsstring
  type' :: LogType
  stage :: "jsstring option"

text \<open>The type parameters \<open>'a\<close>, \<open>'b\<close>, \<open>'s\<close> and \<open>'p\<close> are \<^verbatim>\<open>SitewideAnalysis\<close>,
  \<^verbatim>\<open>SeoAnalysisResult\<close>, \<^verbatim>\<open>ExecutiveSummary\<close> and \<^verbatim>\<open>DailyActionPlan[]\<close>.\<close>

record ('a, 'b, 's, 'p) PartialResults =
  sitewideAnalysis :: "'a option"
  seoAnalysis :: "'b option"
  executiveSummary :: "'s option"
  actionPlan :: "'p option"
  urlsDiscovered :: "nat option"
  urlsAnalyzed :: "nat option"

definition PIPELINE_STAGE_DEFINITIONS :: "(jsstring \<times> jsstring \<times> jsstring) list" where
  "PIPELINE_STAGE_DEFINITIONS =
     [(js ''crawl'', js ''Sitemap Discovery'',
         js ''Crawling sitemaps in parallel to extract all page URLs''),
      (js ''rank'', js ''URL Prioritization'',
         js ''Scoring and ranking URLs by strategic SEO value''),
      (js ''competitor'', js ''Competitor Intelligence'',
         js ''Analyzing competitor content gaps and strategies''),
      (js ''technical'', js ''Technical Health Scan'',
         js ''Auditing site architecture, speed, and crawlability''),
      (js ''content'', js ''Content Analysis'',
         js ''Evaluating on-page SEO factors and content quality''),
      (js ''actionplan'', js ''Action Plan Generation'',
         js ''Creating prioritized implementation roadmap''),
      (js ''summary'', js ''Executive Synthesis'',
         js ''Generating 80/20 executive summary with top priorities'')]"

definition MAX_URLS_FOR_ANALYSIS :: nat where
  "MAX_URLS_FOR_ANALYSIS = 100"

datatype AppState = Idle | Loading | Results | AppError | ConfigureAi

datatype LoadingPhase = Crawling | Analyzing

record WizardSubmitData =
  sitemapUrl :: jsstring
  url :: jsstring
  competitorSitemaps :: jsstring
  analysisType :: jsstring
  targetLocation :: jsstring

record CrawlProgress =
  count' :: int
  total :: int
  currentSitemap :: "jsstring option"

subsection \<open>The collaborators, as the orchestrator sees them\<close>

text \<open>
  A value that is thrown or that rejects a promise is an \<^verbatim>\<open>Error\<close> object with its message, or
  something else. An awaited call is what the orchestrator observes of it: the progress
  callbacks that run before it settles, each with its time, the time at which it settles, and
  the value or the rejection.
\<close>

datatype thrown = ErrorObject jsstring | NonError

datatype 'x outcome = Resolved 'x | Rejected thrown

record ('m, 'x) behaviour =
  callbacks :: "(int \<times> 'm) list"
  settledAt :: int
  outcome :: "'x outcome"

text \<open>\<^verbatim>\<open>generateSitewideAudit\<close> and \<^verbatim>\<open>generateSeoAnalysis\<close> run under one \<^verbatim>\<open>Promise.all\<close>: the
  callbacks of the two arrive in one sequence, and the promise resolves with both results or
  rejects with the first rejection.\<close>

datatype parallelMessage = FromSitewideAudit jsstring | FromSeoAnalysis jsstring

datatype ('a, 'b) call =
    CrawlSitemapCall jsstring
  | RankUrlsCall "jsstring list"
  | SitewideAuditCall "jsstring list"
  | SeoAnalysisCall "jsstring list"
  | ActionPlanCall 'a 'b
  | ExecutiveSummaryCall 'a 'b

record ('a, 'b, 's, 'p) environment =
  storageHost :: "('a, 'b) host"
  aiConfigured :: bool
  urlToString :: "jsstring \<Rightarrow> jsstring"
  domExceptionMessage :: "js_error \<Rightarrow> jsstring"
  crawlSitemap :: "jsstring \<Rightarrow> (CrawlProgress, jsstring list) behaviour"
  rankUrls :: "jsstring list \<Rightarrow> jsstring list"
  parallelAnalysis :: "jsstring list \<Rightarrow> WizardSubmitData \<Rightarrow> (parallelMessage, 'a \<times> 'b) behaviour"
  createActionPlan :: "'a \<Rightarrow> 'b \<Rightarrow> (jsstring, 'p) behaviour"
  generateExecutiveSummary :: "'a \<Rightarrow> 'b \<Rightarrow> (unit, 's) behaviour"
  historyWriteThrows :: "thrown option"

subsection \<open>The state of the component\<close>

text \<open>
  The React state of \<^verbatim>\<open>App\<close> that the pipeline reads and writes, the browser, the value
  \<open>clock\<close> of \<^verbatim>\<open>Date.now()\<close>, and the sequence \<open>invoked\<close> of the collaborator calls of the run, which the
  code does not keep and the claims speak of. The history of finished analyses
  (\<^verbatim>\<open>analysisHistory\<close>, \<^verbatim>\<open>selectedAnalysisId\<close> and their copy in localStorage) is outside the
  pipeline; of it the model keeps only that the write to localStorage may throw.
\<close>

record ('a, 'b, 's, 'p) app =
  error :: "jsstring option"
  appState :: AppState
  loadingPhase :: LoadingPhase
  crawlProgress :: "CrawlProgress option"
  pipelineStages :: "PipelineStage list"
  activityLog :: "ActivityLogEntry list"
  partialResults :: "('a, 'b, 's, 'p) PartialResults"
  analysisStartTime :: int
  localStorage :: "('a, 'b) browser"
  clock :: int
  invoked :: "('a, 'b) call list"

definition initialStages :: "PipelineStage list" where
  "initialStages =
     map (\<lambda>(i, n, d). \<lparr>id' = i, name = n, description = d, status = Pending, progress = 0,
            itemsProcessed = None, totalItems = None, currentTask = None,
            startTime = None, endTime = None\<rparr>) PIPELINE_STAGE_DEFINITIONS"

definition noResults :: "('a, 'b, 's, 'p) PartialResults" where
  "noResults = \<lparr>sitewideAnalysis = None, seoAnalysis = None, executiveSummary = None,
      actionPlan = None, urlsDiscovered = None, urlsAnalyzed = None\<rparr>"

text \<open>
  \<^verbatim>\<open>
  const updateStage = (stageId, updates: Partial<PipelineStage>) =>
    setPipelineStages(prev => prev.map(s => s.id === stageId ? { ...s, ...updates } : s));
  const addLog = (message, type = 'info', stage?) =>
    setActivityLog(prev => [...prev, { timestamp: Date.now(), message, type, stage }]);
  const resetPipeline = () => { ... all stages pending with progress 0, no log, no results ... };\<close>
\<close>

definition updateStage ::
  "jsstring \<Rightarrow> (PipelineStage \<Rightarrow> PipelineStage) \<Rightarrow> ('a, 'b, 's, 'p) app \<Rightarrow> ('a, 'b, 's, 'p) app" where
  "updateStage stageId updates st =
     st\<lparr>pipelineStages := map (\<lambda>s. if id' s = stageId then updates s else s) (pipelineStages st)\<rparr>"

definition addLog ::
  "jsstring \<Rightarrow> LogType \<Rightarrow> jsstring option \<Rightarrow> ('a, 'b, 's, 'p) app \<Rightarrow> ('a, 'b, 's, 'p) app" where
  "addLog msg t stg st =
     st\<lparr>activityLog := activityLog st
           @ [\<lparr>timestamp' = clock st, message = msg, type' = t, stage = stg\<rparr>]\<rparr>"

definition resetPipeline :: "('a, 'b, 's, 'p) app \<Rightarrow> ('a, 'b, 's, 'p) app" where
  "resetPipeline st =
     st\<lparr>pipelineStages := initialStages, activityLog := [], partialResults := noResults,
        analysisStartTime := clock st\<rparr>"

definition markRunning :: "int \<Rightarrow> jsstring \<Rightarrow> PipelineStage \<Rightarrow> PipelineStage" where
  "markRunning t task s = s\<lparr>status := Running, startTime := Some t, currentTask := Some task\<rparr>"

definition markComplete :: "int \<Rightarrow> PipelineStage \<Rightarrow> PipelineStage" where
  "markComplete t s = s\<lparr>status := Complete, progress := 100, endTime := Some t\<rparr>"

definition invoke :: "('a, 'b) call \<Rightarrow> ('a, 'b, 's, 'p) app \<Rightarrow> ('a, 'b, 's, 'p) app" where
  "invoke c st = st\<lparr>invoked := invoked st @ [c]\<rparr>"

text \<open>
  An \<^verbatim>\<open>await\<close> of a collaborator gives the event loop its turn: the timers queued with delay 0
  run, the callbacks of the call arrive, and the flow goes on at the time the call settles.
\<close>

definition awaitCall ::
  "('a, 'b, 's, 'p) environment \<Rightarrow> ('m \<Rightarrow> ('a, 'b, 's, 'p) app \<Rightarrow> ('a, 'b, 's, 'p) app)
    \<Rightarrow> ('m, 'x) behaviour \<Rightarrow> ('a, 'b, 's, 'p) app \<Rightarrow> ('a, 'b, 's, 'p) app" where
  "awaitCall env onMessage b st =
     (let st1 = st\<lparr>localStorage := runTimers (storageHost env) (clock st) (localStorage st)\<rparr>;
          st2 = foldl (\<lambda>s (t, m). onMessage m (s\<lparr>clock := t\<rparr>)) st1 (callbacks b)
      in st2\<lparr>clock := settledAt b\<rparr>)"

subsection \<open>The stages of \<^verbatim>\<open>handleSubmit\<close>\<close>

text \<open>
  A part of the \<^verbatim>\<open>try\<close> block returns \<open>Inr\<close> with the state it leaves, or \<open>Inl\<close> with the value
  thrown and the state at that moment.

  Stage 1, up to the moment the crawl settles (\<open>crawlStart\<close>) and after it (\<open>crawlDone\<close>).
  The progress callback of the crawler sets the progress of the stage to
  \<^verbatim>\<open>progress.total > 0 ? (progress.count / progress.total) * 100 : 0\<close>; the code defers it
  with \<^verbatim>\<open>requestAnimationFrame\<close>, the model runs it before the crawl settles. The double is the
  real number it rounds.
\<close>

definition onCrawlProgress :: "CrawlProgress \<Rightarrow> ('a, 'b, 's, 'p) app \<Rightarrow> ('a, 'b, 's, 'p) app" where
  "onCrawlProgress p st =
     (let progressPercent =
            (if total p > 0 then (real_of_int (count' p) / real_of_int (total p)) * 100 else 0);
          sitemapName = (case currentSitemap p of
                           None \<Rightarrow> js ''sitemap''
                         | Some c \<Rightarrow> if c = [] then js ''sitemap'' else c)
      in updateStage (js ''crawl'')
           (\<lambda>s. s\<lparr>progress := progressPercent, itemsProcessed := Some (count' p),
                  totalItems := Some (total p),
                  currentTask := Some (js ''Processing '' @ sitemapName @ js ''...'')\<rparr>)
           (st\<lparr>crawlProgress := Some p\<rparr>))"

definition crawlStart ::
  "('a, 'b, 's, 'p) environment \<Rightarrow> WizardSubmitData \<Rightarrow> ('a, 'b, 's, 'p) app
    \<Rightarrow> ('a, 'b, 's, 'p) app" where
  "crawlStart env data st0 =
     (let st1 = addLog (js ''Starting sitemap discovery...'') Info (Some (js ''crawl'')) st0;
          st2 = updateStage (js ''crawl'')
                  (markRunning (clock st1) (js ''Initializing parallel crawler...'')) st1;
          target = urlToString env (sitemapUrl data)
      in awaitCall env onCrawlProgress (crawlSitemap env target)
           (invoke (CrawlSitemapCall target) st2))"

definition crawlDone ::
  "jsstring list \<Rightarrow> ('a, 'b, 's, 'p) app
    \<Rightarrow> (thrown \<times> ('a, 'b, 's, 'p) app) + (('a, 'b, 's, 'p) app \<times> jsstring list)" where
  "crawlDone allPageUrls st3 =
     (let st4 = updateStage (js ''crawl'') (markComplete (clock st3)) st3;
          st5 = addLog (js ''Discovered '' @ toStringRadix 10 (length allPageUrls)
                          @ js '' URLs'') Success (Some (js ''crawl'')) st4;
          st6 = st5\<lparr>partialResults :=
                   (partialResults st5)\<lparr>urlsDiscovered := Some (length allPageUrls)\<rparr>\<rparr>
      in if allPageUrls = [] then
           Inl (ErrorObject (js (''Crawl complete, but no URLs were found. Your sitemap ''
                  @ ''might be empty or in a format that could not be parsed.'')), st6)
         else Inr (st6\<lparr>loadingPhase := Analyzing, crawlProgress := None\<rparr>, allPageUrls))"

definition crawlStage ::
  "('a, 'b, 's, 'p) environment \<Rightarrow> WizardSubmitData \<Rightarrow> ('a, 'b, 's, 'p) app
    \<Rightarrow> (thrown \<times> ('a, 'b, 's, 'p) app) + (('a, 'b, 's, 'p) app \<times> jsstring list)" where
  "crawlStage env data st0 =
     (case outcome (crawlSitemap env (urlToString env (sitemapUrl data))) of
        Rejected e \<Rightarrow> Inl (e, crawlStart env data st0)
      | Resolved allPageUrls \<Rightarrow> crawlDone allPageUrls (crawlStart env data st0))"

text \<open>
  The action plan and the executive summary. The code has each of the two twice, after a
  cache hit and at the end of the full run, with other texts for the log and the task.
\<close>

definition onActionPlanMessage :: "jsstring \<Rightarrow> ('a, 'b, 's, 'p) app \<Rightarrow> ('a, 'b, 's, 'p) app" where
  "onActionPlanMessage msg st =
     addLog msg Ai (Some (js ''actionplan''))
       (updateStage (js ''actionplan'') (\<lambda>s. s\<lparr>currentTask := Some msg\<rparr>) st)"

definition actionPlanStage ::
  "('a, 'b, 's, 'p) environment \<Rightarrow> jsstring \<Rightarrow> jsstring \<Rightarrow> jsstring \<Rightarrow> 'a \<Rightarrow> 'b
    \<Rightarrow> ('a, 'b, 's, 'p) app \<Rightarrow> (thrown \<times> ('a, 'b, 's, 'p) app) + ('a, 'b, 's, 'p) app" where
  "actionPlanStage env startLog startTask doneLog sw seoResult st0 =
     (let st1 = addLog startLog Ai (Some (js ''actionplan'')) st0;
          st2 = updateStage (js ''actionplan'') (markRunning (clock st1) startTask) st1;
          st3 = awaitCall env onActionPlanMessage (createActionPlan env sw seoResult)
                  (invoke (ActionPlanCall sw seoResult) st2)
      in case outcome (createActionPlan env sw seoResult) of
           Rejected e \<Rightarrow> Inl (e, st3)
         | Resolved plan \<Rightarrow>
             let st4 = updateStage (js ''actionplan'') (markComplete (clock st3)) st3;
                 st5 = addLog doneLog Success (Some (js ''actionplan'')) st4
             in Inr (st5\<lparr>partialResults := (partialResults st5)\<lparr>actionPlan := Some plan\<rparr>\<rparr>))"

definition summaryStage ::
  "('a, 'b, 's, 'p) environment \<Rightarrow> jsstring \<Rightarrow> 'a \<Rightarrow> 'b
    \<Rightarrow> ('a, 'b, 's, 'p) app \<Rightarrow> (thrown \<times> ('a, 'b, 's, 'p) app) + ('a, 'b, 's, 'p) app" where
  "summaryStage env startTask sw seoResult st0 =
     (let st1 = addLog (js ''Synthesizing executive summary...'') Ai (Some (js ''summary'')) st0;
          st2 = updateStage (js ''summary'') (markRunning (clock st1) startTask) st1;
          st3 = awaitCall env (\<lambda>m s. s) (generateExecutiveSummary env sw seoResult)
                  (invoke (ExecutiveSummaryCall sw seoResult) st2)
      in case outcome (generateExecutiveSummary env sw seoResult) of
           Rejected e \<Rightarrow> Inl (e, st3)
         | Resolved summary \<Rightarrow>
             let st4 = updateStage (js ''summary'') (markComplete (clock st3)) st3;
                 st5 = addLog (js ''Executive summary complete'') Success (Some (js ''summary'')) st4
             in Inr (st5\<lparr>partialResults :=
                          (partialResults st5)\<lparr>executiveSummary := Some summary\<rparr>\<rparr>))"

definition saveAnalysis ::
  "('a, 'b, 's, 'p) environment \<Rightarrow> ('a, 'b, 's, 'p) app
    \<Rightarrow> (thrown \<times> ('a, 'b, 's, 'p) app) + ('a, 'b, 's, 'p) app" where
  "saveAnalysis env st =
     (case historyWriteThrows env of
        Some e \<Rightarrow> Inl (e, st)
      | None \<Rightarrow> Inr (st\<lparr>appState := Results\<rparr>))"

text \<open>
  The cache hit:
  \<^verbatim>\<open>
  ['rank', 'competitor', 'technical', 'content'].forEach(stageId => {
    updateStage(stageId, { status: 'complete', progress: 100, endTime: Date.now() });
  });
  setPartialResults({ urlsDiscovered: urlsFromSitemap.length,
    sitewideAnalysis: cachedAnalysis.sitewide, seoAnalysis: cachedAnalysis.seo });
  ... action plan, executive summary, history ...\<close>
\<close>

definition cachedPath ::
  "('a, 'b, 's, 'p) environment \<Rightarrow> jsstring list \<Rightarrow> 'a \<times> 'b
    \<Rightarrow> ('a, 'b, 's, 'p) app \<Rightarrow> (thrown \<times> ('a, 'b, 's, 'p) app) + ('a, 'b, 's, 'p) app" where
  "cachedPath env urlsFromSitemap cachedAnalysis st0 =
     (let st1 = addLog ([0xD83D, 0xDE80] @ js '' Cache hit! Using cached analysis...'')
                  Success None st0;
          st2 = foldl (\<lambda>s stageId. updateStage stageId (markComplete (clock s)) s) st1
                  [js ''rank'', js ''competitor'', js ''technical'', js ''content''];
          st3 = st2\<lparr>partialResults :=
                   \<lparr>sitewideAnalysis = Some (fst cachedAnalysis),
                    seoAnalysis = Some (snd cachedAnalysis),
                    executiveSummary = None, actionPlan = None,
                    urlsDiscovered = Some (length urlsFromSitemap), urlsAnalyzed = None\<rparr>\<rparr>
      in case actionPlanStage env (js ''Generating fresh action plan from cache...'')
                (js ''Creating implementation roadmap...'') (js ''Action plan generated'')
                (fst cachedAnalysis) (snd cachedAnalysis) st3 of
           Inl x \<Rightarrow> Inl x
         | Inr st4 \<Rightarrow>
             (case summaryStage env (js ''Creating 80/20 analysis...'')
                     (fst cachedAnalysis) (snd cachedAnalysis) st4 of
                Inl x \<Rightarrow> Inl x
              | Inr st5 \<Rightarrow> saveAnalysis env st5))"

text \<open>
  The full run. \<^verbatim>\<open>msg.toLowerCase().includes('competitor')\<close> sends a message of the sitewide
  audit to the stage \<^verbatim>\<open>competitor\<close> or to \<^verbatim>\<open>technical\<close>; no character outside \<open>A-Z\<close> becomes
  a letter of that word in lower case without a combining mark after it, so lowering
  \<open>A-Z\<close> decides the test.
\<close>

definition toLowerCase :: "jsstring \<Rightarrow> jsstring" where
  "toLowerCase s = map (\<lambda>c. if 0x41 \<le> c \<and> c \<le> 0x5A then c + 0x20 else c) s"

fun includes' :: "jsstring \<Rightarrow> jsstring \<Rightarrow> bool" where
  "includes' [] p = (p = [])"
| "includes' (c # cs) p = (startsWith (c # cs) p \<or> includes' cs p)"

definition onParallelMessage :: "parallelMessage \<Rightarrow> ('a, 'b, 's, 'p) app \<Rightarrow> ('a, 'b, 's, 'p) app" where
  "onParallelMessage m st =
     (case m of
        FromSitewideAudit msg \<Rightarrow>
          if includes' (toLowerCase msg) (js ''competitor'') then
            addLog msg Ai (Some (js ''competitor''))
              (updateStage (js ''competitor'') (\<lambda>s. s\<lparr>currentTask := Some msg\<rparr>) st)
          else
            addLog msg Ai (Some (js ''technical''))
              (updateStage (js ''technical'') (\<lambda>s. s\<lparr>currentTask := Some msg\<rparr>) st)
      | FromSeoAnalysis msg \<Rightarrow>
          addLog msg Ai (Some (js ''content''))
            (updateStage (js ''content'') (\<lambda>s. s\<lparr>currentTask := Some msg\<rparr>) st))"

definition rankStage ::
  "('a, 'b, 's, 'p) environment \<Rightarrow> jsstring list \<Rightarrow> ('a, 'b, 's, 'p) app
    \<Rightarrow> ('a, 'b, 's, 'p) app \<times> jsstring list" where
  "rankStage env urlsFromSitemap st0 =
     (let st1 = addLog (js ''Prioritizing URLs by SEO value...'') Info (Some (js ''rank'')) st0;
          st2 = updateStage (js ''rank'') (markRunning (clock st1) (js ''Scoring URL importance...'')) st1;
          st3 = invoke (RankUrlsCall urlsFromSitemap) st2;
          rankedUrls = rankUrls env urlsFromSitemap;
          inputUrls = take MAX_URLS_FOR_ANALYSIS rankedUrls;
          st4 = updateStage (js ''rank'') (markComplete (clock st3)) st3;
          st5 = addLog (js ''Ranked '' @ toStringRadix 10 (length rankedUrls)
                          @ js '' URLs, analyzing top '' @ toStringRadix 10 (length inputUrls))
                  Success (Some (js ''rank'')) st4
      in (st5\<lparr>partialResults := (partialResults st5)\<lparr>urlsAnalyzed := Some (length inputUrls)\<rparr>\<rparr>,
          inputUrls))"

definition parallelStage ::
  "('a, 'b, 's, 'p) environment \<Rightarrow> WizardSubmitData \<Rightarrow> jsstring list \<Rightarrow> ('a, 'b, 's, 'p) app
    \<Rightarrow> (thrown \<times> ('a, 'b, 's, 'p) app) + (('a, 'b, 's, 'p) app \<times> 'a \<times> 'b)" where
  "parallelStage env data inputUrls st0 =
     (let st1 = addLog (js ''Starting parallel AI analysis engines...'') Ai None st0;
          st2 = updateStage (js ''competitor'')
                  (markRunning (clock st1) (js ''Analyzing competitor sitemaps...'')) st1;
          st3 = updateStage (js ''technical'')
                  (markRunning (clock st2) (js ''Auditing technical health...'')) st2;
          st4 = updateStage (js ''content'')
                  (markRunning (clock st3) (js ''Evaluating content quality...'')) st3;
          st5 = awaitCall env onParallelMessage (parallelAnalysis env inputUrls data)
                  (invoke (SeoAnalysisCall inputUrls) (invoke (SitewideAuditCall inputUrls) st4))
      in case outcome (parallelAnalysis env inputUrls data) of
           Rejected e \<Rightarrow> Inl (e, st5)
         | Resolved (sw, analysis) \<Rightarrow>
             let st6 = updateStage (js ''competitor'') (markComplete (clock st5)) st5;
                 st7 = updateStage (js ''technical'') (markComplete (clock st6)) st6;
                 st8 = updateStage (js ''content'') (markComplete (clock st7)) st7;
                 st9 = addLog (js ''Sitewide audit complete'') Success (Some (js ''technical'')) st8;
                 st10 = addLog (js ''Content analysis complete'') Success (Some (js ''content'')) st9
             in Inr (st10\<lparr>partialResults :=
                       (partialResults st10)\<lparr>sitewideAnalysis := Some sw,
                                               seoAnalysis := Some analysis\<rparr>\<rparr>, sw, analysis))"

definition fullPath ::
  "('a, 'b, 's, 'p) environment \<Rightarrow> WizardSubmitData \<Rightarrow> jsstring list
    \<Rightarrow> ('a, 'b, 's, 'p) app \<Rightarrow> (thrown \<times> ('a, 'b, 's, 'p) app) + ('a, 'b, 's, 'p) app" where
  "fullPath env data urlsFromSitemap st0 =
     (let st1 = addLog (js ''No valid cache found, running full analysis...'') Info None st0;
          (st2, inputUrls) = rankStage env urlsFromSitemap st1
      in case parallelStage env data inputUrls st2 of
           Inl x \<Rightarrow> Inl x
         | Inr (st3, sw, analysis) \<Rightarrow>
             let st4 = addLog (js ''Caching analysis for future use...'') Info None st3
             in case setAnalysis (storageHost env) (clock st4) (url data) urlsFromSitemap sw analysis
                       DEFAULT_TTL_MS (localStorage st4) of
                  Inl e \<Rightarrow> Inl (ErrorObject (domExceptionMessage env e), st4)
                | Inr storage' \<Rightarrow>
                    (case actionPlanStage env (js ''Generating implementation roadmap...'')
                            (js ''Creating daily action items...'')
                            (js ''Action plan generated successfully'') sw analysis
                            (st4\<lparr>localStorage := storage'\<rparr>) of
                       Inl x \<Rightarrow> Inl x
                     | Inr st5 \<Rightarrow>
                         (case summaryStage env (js ''Generating 80/20 analysis...'') sw analysis st5 of
                            Inl x \<Rightarrow> Inl x
                          | Inr st6 \<Rightarrow>
                              saveAnalysis env
                                (addLog ([0xD83C, 0xDF89]
                                    @ js '' Analysis complete! Building final report...'')
                                   Success None st6))))"

subsection \<open>\<^verbatim>\<open>handleSubmit\<close>\<close>

text \<open>
  The \<^verbatim>\<open>try\<close> block: the crawl, the lookup in the cache with \<^verbatim>\<open>data.url\<close> and the URLs found,
  and one of the two paths.
\<close>

definition tryBlock ::
  "('a, 'b, 's, 'p) environment \<Rightarrow> WizardSubmitData \<Rightarrow> ('a, 'b, 's, 'p) app
    \<Rightarrow> (thrown \<times> ('a, 'b, 's, 'p) app) + ('a, 'b, 's, 'p) app" where
  "tryBlock env data st0 =
     (case crawlStage env data st0 of
        Inl x \<Rightarrow> Inl x
      | Inr (st1, urlsFromSitemap) \<Rightarrow>
          let st2 = addLog (js ''Checking for cached analysis...'') Info None st1;
              (cachedAnalysis, storage') =
                 getAnalysis (storageHost env) (clock st2) (url data) urlsFromSitemap (localStorage st2);
              st3 = st2\<lparr>localStorage := storage'\<rparr>
          in case cachedAnalysis of
               Some c \<Rightarrow> cachedPath env urlsFromSitemap c st3
             | None \<Rightarrow> fullPath env data urlsFromSitemap st3)"

text \<open>
  \<^verbatim>\<open>
  } catch (e) {
    const errorMessage = e instanceof Error ? e.message : 'An unexpected error occurred.';
    setError(errorMessage);
    addLog(`[cross mark] Analysis failed: ${errorMessage}`, 'error');
    // Mark current running stage as error
    setPipelineStages(prev => prev.map(s =>
      s.status === 'running' ? { ...s, status: 'error' as const } : s));
    setAppState('error');
  }\<close>
\<close>

definition errorMessageOf :: "thrown \<Rightarrow> jsstring" where
  "errorMessageOf e = (case e of ErrorObject m \<Rightarrow> m | NonError \<Rightarrow> js ''An unexpected error occurred.'')"

definition catchBlock :: "thrown \<Rightarrow> ('a, 'b, 's, 'p) app \<Rightarrow> ('a, 'b, 's, 'p) app" where
  "catchBlock e st0 =
     (let errorMessage = errorMessageOf e;
          st1 = st0\<lparr>error := Some errorMessage\<rparr>;
          st2 = addLog ([0x274C] @ js '' Analysis failed: '' @ errorMessage) ErrorLog None st1;
          st3 = st2\<lparr>pipelineStages :=
                   map (\<lambda>s. if status s = Running then s\<lparr>status := Error\<rparr> else s)
                     (pipelineStages st2)\<rparr>
      in st3\<lparr>appState := AppError\<rparr>)"

text \<open>
  \<^verbatim>\<open>
  // Initialize state
  abortControllerRef.current = new AbortController();
  setAppState('loading'); setLoadingPhase('crawling'); setError(null);
  setSelectedAnalysisId(null); setCrawlProgress(null);
  resetPipeline(); setAnalysisStartTime(Date.now());\<close>
  A run starts with no collaborator call behind it.
\<close>

definition initializeState :: "('a, 'b, 's, 'p) app \<Rightarrow> ('a, 'b, 's, 'p) app" where
  "initializeState st0 =
     (let st1 = resetPipeline (st0\<lparr>appState := Loading, loadingPhase := Crawling,
                  error := None, crawlProgress := None, invoked := []\<rparr>)
      in st1\<lparr>analysisStartTime := clock st1\<rparr>)"

definition handleSubmit ::
  "('a, 'b, 's, 'p) environment \<Rightarrow> WizardSubmitData \<Rightarrow> ('a, 'b, 's, 'p) app
    \<Rightarrow> ('a, 'b, 's, 'p) app" where
  "handleSubmit env data st0 =
     (if sitemapUrl data = [] then
        st0\<lparr>error := Some (js ''Please enter your sitemap.xml URL.''), appState := AppError\<rparr>
      else if \<not> aiConfigured env then
        st0\<lparr>error := Some (js ''AI Provider is not configured.''), appState := ConfigureAi\<rparr>
      else
        case urlHostname (storageHost env) (sitemapUrl data) of
          None \<Rightarrow>
            st0\<lparr>error := Some (js (''Please enter a valid sitemap URL ''
                                    @ ''(e.g., https://example.com/sitemap.xml).'')),
                appState := AppError\<rparr>
        | Some h \<Rightarrow>
            (case tryBlock env data (initializeState st0) of
               Inr st1 \<Rightarrow> st1
             | Inl (e, st1) \<Rightarrow> catchBlock e st1))"

text \<open>The state of the component when it is mounted.\<close>

definition initialApp :: "('a, 'b, 's, 'p) app" where
  "initialApp =
     \<lparr>error = None, appState = Idle, loadingPhase = Crawling, crawlProgress = None,
      pipelineStages = initialStages, activityLog = [], partialResults = noResults,
      analysisStartTime = 0, localStorage = emptyBrowser, clock = 0, invoked = []\<rparr>"

subsection \<open>Notions for the properties of a run\<close>

text \<open>A property of every stage of the list; the stages that a cache hit fast-forwards, done;
  the state in which a part of the \<^verbatim>\<open>try\<close> block ends, thrown or not; and the identifiers of
  the stages, in their order.\<close>

definition allStages :: "(PipelineStage \<Rightarrow> bool) \<Rightarrow> ('a, 'b, 's, 'p) app \<Rightarrow> bool" where
  "allStages P st \<longleftrightarrow> (\<forall>s \<in> set (pipelineStages st). P s)"

definition analysisDone :: "PipelineStage \<Rightarrow> bool" where
  "analysisDone s \<longleftrightarrow>
     (id' s \<in> {js ''rank'', js ''competitor'', js ''technical'', js ''content''}
        \<longrightarrow> status s = Complete \<and> progress s = 100)"

definition stateAtExit ::
  "(thrown \<times> ('a, 'b, 's, 'p) app) + ('a, 'b, 's, 'p) app \<Rightarrow> ('a, 'b, 's, 'p) app" where
  "stateAtExit r = (case r of Inl (e, st) \<Rightarrow> st | Inr st \<Rightarrow> st)"

definition stageIds :: "('a, 'b, 's, 'p) app \<Rightarrow> jsstring list" where
  "stageIds st = map id' (pipelineStages st)"

section \<open>Example hosts and states\<close>

text \<open>A browser whose storage has room for one item, and an entry left by an earlier run.\<close>

abbreviation oneSlotHost :: "('a, 'b) host" where
  "oneSlotHost \<equiv> \<lparr>urlHostname = (\<lambda>u. None),
      setItemThrows = (\<lambda>s k w. if items s = [] then None else Some QuotaExceededError)\<rparr>"

abbreviation oldEntry :: "jsstring \<times> (bool, bool) CachedAnalysis parsed" where
  "oldEntry \<equiv> (generateCacheKey (js ''old.com'') (js ''0''),
      Parsed \<lparr>domain = js ''old.com'', urlsHash = js ''0'', timestamp = 0, ttl = DEFAULT_TTL_MS,
        sitewide = False, seo = False\<rparr>)"

text \<open>A browser that accepts every write, and the request number \<open>i\<close> of a sequence: made at
  the time \<open>i\<close>, for the domain \<^verbatim>\<open>aa...a\<close> of \<open>i\<close> letters and no URL.\<close>

abbreviation acceptingHost :: "('a, 'b) host" where
  "acceptingHost \<equiv> \<lparr>urlHostname = (\<lambda>u. None), setItemThrows = (\<lambda>s k w. None)\<rparr>"

abbreviation numberedRequest :: "nat \<Rightarrow> (bool, bool) storeRequest" where
  "numberedRequest i \<equiv> \<lparr>reqAt = int i, reqDomainUrl = replicate i 0x61, reqUrls = [],
      reqSitewide = True, reqSeo = True\<rparr>"

text \<open>A host that parses every URL and accepts every write, a submission, collaborators that
  settle at once with the given results of the crawl and of the action plan, and a component
  whose cache holds an analysis of \<^verbatim>\<open>https://a.com\<close> for the URL \<^verbatim>\<open>https://a.com/1\<close>.\<close>

abbreviation exampleHost :: "('a, 'b) host" where
  "exampleHost \<equiv> \<lparr>urlHostname = (\<lambda>u. Some u), setItemThrows = (\<lambda>s k w. None)\<rparr>"

abbreviation exampleData :: WizardSubmitData where
  "exampleData \<equiv> \<lparr>sitemapUrl = js ''https://a.com/sitemap.xml'', url = js ''https://a.com'',
      competitorSitemaps = [], analysisType = [], targetLocation = []\<rparr>"

abbreviation exampleEnv ::
  "jsstring list outcome \<Rightarrow> bool outcome \<Rightarrow> (bool, bool, bool, bool) environment" where
  "exampleEnv crawled planned \<equiv>
     \<lparr>storageHost = exampleHost, aiConfigured = True, urlToString = (\<lambda>u. u),
      domExceptionMessage = (\<lambda>e. []),
      crawlSitemap = (\<lambda>u. \<lparr>callbacks = [], settledAt = 10, outcome = crawled\<rparr>),
      rankUrls = (\<lambda>us. us),
      parallelAnalysis = (\<lambda>us d. \<lparr>callbacks = [], settledAt = 20, outcome = Resolved (True, True)\<rparr>),
      createActionPlan = (\<lambda>a b. \<lparr>callbacks = [], settledAt = 30, outcome = planned\<rparr>),
      generateExecutiveSummary = (\<lambda>a b. \<lparr>callbacks = [], settledAt = 40, outcome = Resolved True\<rparr>),
      historyWriteThrows = None\<rparr>"

abbreviation cachedApp :: "(bool, bool, bool, bool) app" where
  "cachedApp \<equiv> initialApp\<lparr>localStorage :=
     \<lparr>metadataItem = None,
      items = [(generateCacheKey (js ''https://a.com'') (generateUrlsHash [js ''https://a.com/1'']),
                Parsed \<lparr>domain = js ''https://a.com'',
                  urlsHash = generateUrlsHash [js ''https://a.com/1''], timestamp = 0,
                  ttl = DEFAULT_TTL_MS, sitewide = True, seo = True\<rparr>)],
      timers = []\<rparr>\<rparr>"

section \<open>Properties of the fingerprint\<close>

lemma word_of_int_sint32: "(word_of_int (sint w) :: 32 word) = w"
  by simp

lemma fnvPrime_shifts:
  "w + (push_bit 1 w + push_bit 4 w + push_bit 7 w + push_bit 8 w + push_bit 24 w) = w * fnvPrime"
  for w :: "32 word"
  by (simp add: push_bit_eq_mult fnvPrime_def algebra_simps)

lemma hashStep_sint:
  "hashStep h c =
     (let w = (word_of_int h :: 32 word) XOR word_of_int (uint c)
      in sint w + (sint (push_bit 1 w) + sint (push_bit 4 w) + sint (push_bit 7 w)
          + sint (push_bit 8 w) + sint (push_bit 24 w)))"
proof -
  define w :: "32 word" where "w = word_of_int h XOR word_of_int (uint c)"
  have s: "js_shl (sint w) n = sint (push_bit (n mod 32) w)" for n
    unfolding js_shl_def word_of_int_sint32 ..
  show ?thesis
    unfolding hashStep_def Let_def js_xor_def w_def [symmetric] s by simp
qed

lemma word_of_int_hashStep:
  "(word_of_int (hashStep h c) :: 32 word) = (word_of_int h XOR ucast c) * fnvPrime"
proof -
  define w :: "32 word" where "w = word_of_int h XOR word_of_int (uint c)"
  have u: "(word_of_int (uint c) :: 32 word) = ucast c"
    by simp
  have "hashStep h c = sint w + (sint (push_bit 1 w) + sint (push_bit 4 w) + sint (push_bit 7 w)
          + sint (push_bit 8 w) + sint (push_bit 24 w))"
    unfolding hashStep_sint Let_def w_def ..
  then have "(word_of_int (hashStep h c) :: 32 word)
      = w + (push_bit 1 w + push_bit 4 w + push_bit 7 w + push_bit 8 w + push_bit 24 w)"
    by (simp only: wi_hom_syms word_of_int_sint32)
  also have "\<dots> = w * fnvPrime"
    by (rule fnvPrime_shifts)
  finally show ?thesis unfolding w_def u .
qed

lemma sint32_bounds: "- (2 ^ 31) \<le> sint w \<and> sint w < 2 ^ 31" for w :: "32 word"
  using sint_ge [of w] sint_lt [of w] by simp

text \<open>No intermediate value of the loop leaves the range where doubles are exact integers.\<close>

lemma hashStep_exact: "\<bar>hashStep h c\<bar> < 2 ^ 53"
proof -
  define w :: "32 word" where "w = word_of_int h XOR word_of_int (uint c)"
  have e: "hashStep h c = sint w + (sint (push_bit 1 w) + sint (push_bit 4 w) + sint (push_bit 7 w)
          + sint (push_bit 8 w) + sint (push_bit 24 w))"
    unfolding hashStep_sint Let_def w_def ..
  show ?thesis
    unfolding e
    using sint32_bounds [of w] sint32_bounds [of "push_bit 1 w"] sint32_bounds [of "push_bit 4 w"]
      sint32_bounds [of "push_bit 7 w"] sint32_bounds [of "push_bit 8 w"]
      sint32_bounds [of "push_bit 24 w"]
    by simp linarith
qed

lemma word_of_int_foldl_hashStep:
  "(word_of_int (foldl hashStep h str) :: 32 word) = fnvUnits (word_of_int h) str"
  by (induction str arbitrary: h) (simp_all add: fnvUnits_def word_of_int_hashStep)

lemma simpleHash_fnvUnits:
  "simpleHash str = toStringRadix 36 (unat (fnvUnits fnvOffsetBasis str))"
proof -
  have "js_ushr (foldl hashStep 2166136261 str) 0 = uint (fnvUnits (word_of_int 2166136261) str)"
    by (simp add: js_ushr_def word_of_int_foldl_hashStep)
  then show ?thesis
    by (simp add: simpleHash_def fnvOffsetBasis_def)
qed

lemma ucast_byte_unit: "(ucast (ucast b :: 16 word) :: 32 word) = ucast b" for b :: "8 word"
  by (rule ucast_up_ucast) (simp add: is_up)

lemma fnvUnits_bytes: "fnvUnits acc (map ucast bs) = fnv1a32 acc bs"
proof (induction bs arbitrary: acc)
  case Nil
  show ?case by (simp add: fnvUnits_def)
next
  case (Cons b bs)
  then show ?case by (simp add: fnvUnits_def ucast_byte_unit)
qed

lemmas hash_eval =
  generateUrlsHash_def simpleHash_fnvUnits fnvUnits_def fnvPrime_def fnvOffsetBasis_def
  js_def digitChar_def toStringRadix.simps

lemma hash_example_single: "generateUrlsHash [js ''https://a.com/1''] = js ''tl623e''"
  by (simp add: hash_eval)

lemma hash_example_pair:
  "generateUrlsHash [js ''https://a.com/1'', js ''https://a.com/2''] = js ''1gmdn42''"
  by (simp add: hash_eval)

lemma hash_example_swapped:
  "generateUrlsHash [js ''https://a.com/2'', js ''https://a.com/1''] = js ''1gmdn42''"
  by (simp add: hash_eval)

lemma hash_example_duplicate:
  "generateUrlsHash [js ''https://a.com/1'', js ''https://a.com/1''] = js ''1gce1f3''"
  by (simp add: hash_eval)

lemma sort_mset_cong: "mset xs = mset ys \<Longrightarrow> sort xs = sort ys" for xs :: "jsstring list"
  by (rule properties_for_sort) simp_all

text \<open>
  Claim C1, as the code has it. The fingerprint depends only on the multiset of the URLs:
  every permutation of a list has the fingerprint of the list. The list is sorted and joined
  with its repetitions, nothing removes duplicates; and the specification's example of two
  different sets, one URL against two, gets two different fingerprints.
\<close>

theorem generateUrlsHash_permutation:
  "(mset xs = mset ys \<longrightarrow> generateUrlsHash xs = generateUrlsHash ys)
   \<and> generateUrlsHash [js ''https://a.com/1'']
       \<noteq> generateUrlsHash [js ''https://a.com/1'', js ''https://a.com/2'']"
proof
  show "mset xs = mset ys \<longrightarrow> generateUrlsHash xs = generateUrlsHash ys"
    by (auto simp: generateUrlsHash_def dest: sort_mset_cong)
  show "generateUrlsHash [js ''https://a.com/1'']
       \<noteq> generateUrlsHash [js ''https://a.com/1'', js ''https://a.com/2'']"
    unfolding hash_example_single hash_example_pair by (simp add: js_def)
qed

theorem generateUrlsHash_permutation_witness:
  "mset [js ''https://a.com/1'', js ''https://a.com/2'']
     = mset [js ''https://a.com/2'', js ''https://a.com/1'']
   \<and> generateUrlsHash [js ''https://a.com/1'', js ''https://a.com/2'']
     = generateUrlsHash [js ''https://a.com/2'', js ''https://a.com/1'']"
  using generateUrlsHash_permutation
    [of "[js ''https://a.com/1'', js ''https://a.com/2'']"
        "[js ''https://a.com/2'', js ''https://a.com/1'']"]
  by (simp add: js_def)

text \<open>
  Claim C1 as stated also asks for invariance under the insertion of a duplicate. The list
  with \<^verbatim>\<open>https://a.com/1\<close> once and the list with it twice denote the same set and get
  different fingerprints.
\<close>

theorem generateUrlsHash_duplicate_counterexample:
  "set [js ''https://a.com/1'', js ''https://a.com/1''] = set [js ''https://a.com/1'']
   \<and> generateUrlsHash [js ''https://a.com/1'', js ''https://a.com/1'']
     \<noteq> generateUrlsHash [js ''https://a.com/1'']"
  unfolding hash_example_single hash_example_duplicate by (simp add: js_def)

text \<open>
  Claim C8, as the code has it. \<open>simpleHash\<close> is 32-bit FNV-1a over the UTF-16 code units of
  the string: from the offset basis 2166136261, each code unit is xor-ed into the accumulator,
  which is then multiplied by the FNV prime 16777619 modulo \<open>2 ^ 32\<close> (the shift-and-add line
  is that multiplication), and the unsigned 32-bit result is written in base 36. On a string
  whose code units are bytes, this is FNV-1a per byte.
\<close>

theorem simpleHash_is_fnv1a:
  "simpleHash str = toStringRadix 36 (unat (fnvUnits fnvOffsetBasis str))
   \<and> simpleHash (map ucast bs) = toStringRadix 36 (unat (fnv1a32 fnvOffsetBasis bs))"
  by (simp add: simpleHash_fnvUnits fnvUnits_bytes)

text \<open>
  Claim C8 as stated speaks of every input string and of its bytes. The one-unit string
  U+0100 has the bytes C4 80 in UTF-8, 01 00 in UTF-16BE and 00 01 in UTF-16LE; the code
  xors the unit 0x100 in one step, and its result is the FNV-1a of none of the three.
\<close>

theorem simpleHash_per_byte_counterexample:
  "simpleHash [0x100] \<noteq> toStringRadix 36 (unat (fnv1a32 fnvOffsetBasis [0xC4, 0x80]))
   \<and> simpleHash [0x100] \<noteq> toStringRadix 36 (unat (fnv1a32 fnvOffsetBasis [0x01, 0x00]))
   \<and> simpleHash [0x100] \<noteq> toStringRadix 36 (unat (fnv1a32 fnvOffsetBasis [0x00, 0x01]))"
  by (simp add: hash_eval)


section \<open>Properties of the result cache\<close>

lemma startsWith_append: "startsWith (p @ s) p"
  by (simp add: startsWith_def)

lemma startsWith_generateCacheKey: "startsWith (generateCacheKey d h) CACHE_PREFIX"
  by (simp add: generateCacheKey_def startsWith_append)

lemma colon_notin_metadata: "(0x3A :: 16 word) \<notin> set (js ''metadata'')"
  by (simp add: js_def)

lemma generateCacheKey_neq_metadataKey: "generateCacheKey d h \<noteq> metadataKey"
proof
  assume "generateCacheKey d h = metadataKey"
  then have e: "d @ js '':'' @ h = js ''metadata''"
    unfolding generateCacheKey_def metadataKey_def by (simp add: js_def)
  have "(0x3A :: 16 word) \<in> set (d @ js '':'' @ h)"
    by (simp add: js_def)
  then show False
    unfolding e using colon_notin_metadata by simp
qed

lemma getItem_setTimeout [simp]: "getItem (setTimeout t st) k = getItem st k"
  by (simp add: getItem_def setTimeout_def)

lemma getItem_setItem: "setItem H k v st = Inr st' \<Longrightarrow> getItem st' k = Some (Parsed v)"
  by (auto simp: setItem_def getItem_def update_conv' split: option.splits)

lemma getItem_removeItem: "getItem (removeItem k st) k = None"
  by (simp add: getItem_def removeItem_def delete_conv')

lemma items_updateMetadata [simp]: "items (updateMetadata H now u st) = items st"
  by (auto simp: updateMetadata_def Let_def setMetadataItem_def split: option.splits sum.splits)

lemma timers_updateMetadata [simp]: "timers (updateMetadata H now u st) = timers st"
  by (auto simp: updateMetadata_def Let_def setMetadataItem_def split: option.splits sum.splits)

lemma getItem_updateMetadata [simp]: "getItem (updateMetadata H now u st) k = getItem st k"
  by (simp add: getItem_def)

lemma setAnalysis_try_stored:
  "setAnalysis_try H now k e st = Inr st' \<Longrightarrow> getItem st' k = Some (Parsed e)"
  by (auto simp: setAnalysis_try_def Let_def dest: getItem_setItem split: sum.splits)

lemma setAnalysis_try_Inl_iff:
  "setAnalysis_try H now k e st = Inl err \<longleftrightarrow> setItemThrows H st k (EntryJson e) = Some err"
  by (auto simp: setAnalysis_try_def Let_def setItem_def split: sum.splits option.splits)

lemma setAnalysis_catch_total: "\<exists>st'. setAnalysis_catch H k e err st = Inr st'"
  by (simp add: setAnalysis_catch_def Let_def split: sum.splits)

lemma setAnalysis_total: "\<exists>st'. setAnalysis H now domainUrl urls a b ttlMs st = Inr st'"
  by (simp add: setAnalysis_def Let_def setAnalysis_catch_total split: sum.splits)

lemma getAnalysis_hit:
  assumes "getItem st (generateCacheKey (extractDomain H domainUrl) (generateUrlsHash urls))
             = Some (Parsed data)"
    and "\<not> now - timestamp data > ttl data"
  shows "getAnalysis H now domainUrl urls st
           = (Some (sitewide data, seo data), setTimeout CleanupExpiredEntries st)"
  using assms by (simp add: getAnalysis_def Let_def)



lemma items_removeItem: "items (removeItem k st) = filter (\<lambda>(k', v). k' \<noteq> k) (items st)"
  by (auto simp: removeItem_def AList.delete_eq intro: filter_cong)

lemma items_removeKeys:
  "items (removeKeys ks st) = filter (\<lambda>(k, v). k \<notin> set ks) (items st)"
proof (induction ks arbitrary: st)
  case Nil
  show ?case by (simp add: removeKeys_def)
next
  case (Cons k ks)
  have "items (removeKeys (k # ks) st) = items (removeKeys ks (removeItem k st))"
    by (simp add: removeKeys_def)
  also have "\<dots> = filter (\<lambda>(k', v). k' \<notin> set ks) (filter (\<lambda>(k', v). k' \<noteq> k) (items st))"
    by (simp add: Cons.IH items_removeItem)
  also have "\<dots> = filter (\<lambda>(k', v). k' \<notin> set (k # ks)) (items st)"
    by (auto intro: filter_cong)
  finally show ?case .
qed

lemma metadataItem_removeKeys [simp]: "metadataItem (removeKeys ks st) = metadataItem st"
  by (induction ks arbitrary: st) (simp_all add: removeKeys_def removeItem_def)

lemma timers_removeKeys [simp]: "timers (removeKeys ks st) = timers st"
  by (induction ks arbitrary: st) (simp_all add: removeKeys_def removeItem_def)

lemma sorted_take_le_drop:
  assumes "sorted (map f xs)" "x \<in> set (take n xs)" "y \<in> set (drop n xs)"
  shows "f x \<le> f y"
proof -
  have "sorted (map f (take n xs) @ map f (drop n xs))"
    using assms(1) by (simp flip: map_append)
  then show ?thesis
    using assms(2,3) by (auto simp: sorted_append)
qed

lemma clearOldestEntries_removes:
  fixes st :: "('a, 'b) browser"
  defines "es \<equiv> sort_key snd (scanEntries (items st))"
  shows "mset (take n es @ drop n es) = mset (scanEntries (items st))"
    and "length (take n es) = min n (length (scanEntries (items st)))"
    and "\<forall>x \<in> set (take n es). \<forall>y \<in> set (drop n es). snd x \<le> snd y"
    and "items (clearOldestEntries n st)
          = filter (\<lambda>(k, v). k \<notin> fst ` set (take n es)) (items st)"
    and "metadataItem (clearOldestEntries n st) = metadataItem st"
    and "timers (clearOldestEntries n st) = timers st"
proof -
  show "mset (take n es @ drop n es) = mset (scanEntries (items st))"
    by (simp add: es_def)
  show "length (take n es) = min n (length (scanEntries (items st)))"
    by (simp add: es_def min.commute)
  show "\<forall>x \<in> set (take n es). \<forall>y \<in> set (drop n es). snd x \<le> snd y"
    using sorted_take_le_drop [of snd es] by (auto simp: es_def)
  have t: "take (min n (length es)) es = take n es"
    by (simp add: min_def)
  show "items (clearOldestEntries n st)
          = filter (\<lambda>(k, v). k \<notin> fst ` set (take n es)) (items st)"
    unfolding clearOldestEntries_def Let_def es_def [symmetric] t
    by (simp add: items_removeKeys)
  show "metadataItem (clearOldestEntries n st) = metadataItem st"
    by (simp add: clearOldestEntries_def Let_def)
  show "timers (clearOldestEntries n st) = timers st"
    by (simp add: clearOldestEntries_def Let_def)
qed

lemma setAnalysis_quota_path:
  assumes "setItemThrows H st (generateCacheKey (extractDomain H domainUrl) (generateUrlsHash urls))
      (EntryJson \<lparr>domain = extractDomain H domainUrl, urlsHash = generateUrlsHash urls,
         timestamp = now, ttl = ttlMs, sitewide = a, seo = b\<rparr>) = Some QuotaExceededError"
  shows "setAnalysis H now domainUrl urls a b ttlMs st =
      Inr (case setItem H (generateCacheKey (extractDomain H domainUrl) (generateUrlsHash urls))
             \<lparr>domain = extractDomain H domainUrl, urlsHash = generateUrlsHash urls,
               timestamp = now, ttl = ttlMs, sitewide = a, seo = b\<rparr> (clearOldestEntries 5 st) of
             Inl retryError \<Rightarrow> clearOldestEntries 5 st
           | Inr st2 \<Rightarrow> st2)"
  using assms
  by (simp add: setAnalysis_def Let_def setAnalysis_try_def setItem_def [of H _ _ st]
      setAnalysis_catch_def split: sum.splits)

lemma setAnalysis_other_error_path:
  assumes "setItemThrows H st (generateCacheKey (extractDomain H domainUrl) (generateUrlsHash urls))
      (EntryJson \<lparr>domain = extractDomain H domainUrl, urlsHash = generateUrlsHash urls,
         timestamp = now, ttl = ttlMs, sitewide = a, seo = b\<rparr>) = Some OtherError"
  shows "setAnalysis H now domainUrl urls a b ttlMs st = Inr st"
  using assms
  by (simp add: setAnalysis_def Let_def setAnalysis_try_def setItem_def [of H _ _ st]
      setAnalysis_catch_def split: sum.splits)


text \<open>
  Claim C3, as the code has it. \<open>getAnalysis\<close> returns nothing exactly when there is no item
  under the derived key, or the item does not parse, or \<open>now - timestamp > ttl\<close>. An expired
  entry is removed by the call itself. An item that does not parse is left where it is: the
  \<^verbatim>\<open>catch\<close> block only returns \<^verbatim>\<open>null\<close>; removing such items is the work of
  \<open>cleanupExpiredEntries\<close>, which the call puts on the timer queue.
\<close>

theorem getAnalysis_absent:
  fixes H :: "('a, 'b) host" and st :: "('a, 'b) browser"
  defines "key \<equiv> \<lambda>domainUrl urls. generateCacheKey (extractDomain H domainUrl) (generateUrlsHash urls)"
  shows "(fst (getAnalysis H now domainUrl urls st) = None \<longleftrightarrow>
            getItem st (key domainUrl urls) = None
          \<or> getItem st (key domainUrl urls) = Some Unparsable
          \<or> (\<exists>data. getItem st (key domainUrl urls) = Some (Parsed data)
                \<and> now - timestamp data > ttl data))
       \<and> (\<forall>data. getItem st (key domainUrl urls) = Some (Parsed data)
                \<and> now - timestamp data > ttl data
            \<longrightarrow> getItem (snd (getAnalysis H now domainUrl urls st)) (key domainUrl urls) = None)
       \<and> (getItem st (key domainUrl urls) = Some Unparsable
            \<longrightarrow> items (snd (getAnalysis H now domainUrl urls st)) = items st)"
  by (auto simp: getAnalysis_def Let_def key_def getItem_removeItem
      split: option.splits parsed.splits)
    (simp add: setTimeout_def)

theorem getAnalysis_absent_witness:
  "getItem \<lparr>metadataItem = None,
      items = [(generateCacheKey (js ''a.com'') (generateUrlsHash []),
         Parsed \<lparr>domain = js ''a.com'', urlsHash = generateUrlsHash [], timestamp = 0, ttl = 10,
           sitewide = True, seo = False\<rparr>)],
      timers = []\<rparr> (generateCacheKey (js ''a.com'') (generateUrlsHash []))
    = Some (Parsed \<lparr>domain = js ''a.com'', urlsHash = generateUrlsHash [], timestamp = 0, ttl = 10,
           sitewide = True, seo = False\<rparr>)
   \<and> (11::int) - 0 > 10
   \<and> getItem (snd (getAnalysis \<lparr>urlHostname = (\<lambda>u. None), setItemThrows = (\<lambda>s k w. None)\<rparr> 11
        (js ''a.com'') []
        \<lparr>metadataItem = None,
          items = [(generateCacheKey (js ''a.com'') (generateUrlsHash []),
             Parsed \<lparr>domain = js ''a.com'', urlsHash = generateUrlsHash [], timestamp = 0, ttl = 10,
               sitewide = True, seo = False\<rparr>)],
          timers = []\<rparr>)) (generateCacheKey (js ''a.com'') (generateUrlsHash [])) = None"
  using getAnalysis_absent [where st =
      "\<lparr>metadataItem = None,
          items = [(generateCacheKey (js ''a.com'') (generateUrlsHash []),
             Parsed \<lparr>domain = js ''a.com'', urlsHash = generateUrlsHash [], timestamp = 0, ttl = 10,
               sitewide = True, seo = False\<rparr>)],
          timers = []\<rparr>"
      and H = "\<lparr>urlHostname = (\<lambda>u. None), setItemThrows = (\<lambda>s k w. None)\<rparr>"
      and domainUrl = "js ''a.com''" and urls = "[]" and now = 11]
  by (simp add: getItem_def extractDomain_def)

text \<open>
  Claim C3 as stated has the unparsable entry deleted by the lookup itself. Here the lookup
  finds one, returns nothing, and the item is still in the storage afterwards.
\<close>

theorem getAnalysis_corrupt_counterexample:
  "getAnalysis \<lparr>urlHostname = (\<lambda>u. None), setItemThrows = (\<lambda>s k w. None)\<rparr> 11
        (js ''a.com'') []
        \<lparr>metadataItem = None,
          items = [(generateCacheKey (js ''a.com'') (generateUrlsHash []),
                    Unparsable :: (bool, bool) CachedAnalysis parsed)],
          timers = []\<rparr>
    = (None,
        \<lparr>metadataItem = None,
          items = [(generateCacheKey (js ''a.com'') (generateUrlsHash []), Unparsable)],
          timers = [CleanupExpiredEntries]\<rparr>)"
  by (simp add: getAnalysis_def Let_def getItem_def extractDomain_def setTimeout_def)


lemma clearOldestEntries_empty:
  "clearOldestEntries n \<lparr>metadataItem = m, items = [], timers = ts\<rparr>
     = \<lparr>metadataItem = m, items = [], timers = ts\<rparr>"
  by (simp add: clearOldestEntries_def removeKeys_def)



lemma scanEntries_single:
  "scanEntries [(generateCacheKey d h, Parsed e)] = [(generateCacheKey d h, timestamp e)]"
  by (simp add: startsWith_generateCacheKey generateCacheKey_neq_metadataKey)

lemma clearOldestEntries_single:
  "clearOldestEntries (Suc n) \<lparr>metadataItem = m, items = [(generateCacheKey d h, Parsed e)], timers = ts\<rparr>
     = \<lparr>metadataItem = m, items = [], timers = ts\<rparr>"
  by (simp add: clearOldestEntries_def startsWith_generateCacheKey generateCacheKey_neq_metadataKey
      removeKeys_def removeItem_def)

text \<open>
  Claim C6. \<open>setAnalysis\<close> never raises to its caller. When the first write fails with
  \<open>QuotaExceededError\<close>, the result is the storage after \<open>clearOldestEntries 5\<close> and one more
  \<open>setItem\<close> of the same key and entry, whose failure is swallowed. \<open>clearOldestEntries 5\<close>
  removes the keys of the first five entries of the scan sorted by timestamp (all of them
  when the scan has fewer than five); no removed entry is younger than an entry of the scan
  that stays; the metadata item is not touched.
\<close>

theorem setAnalysis_quota_recovery:
  fixes H :: "('a, 'b) host" and st :: "('a, 'b) browser"
  defines "key \<equiv> \<lambda>domainUrl urls. generateCacheKey (extractDomain H domainUrl) (generateUrlsHash urls)"
  defines "entry \<equiv> \<lambda>domainUrl urls now ttlMs a b.
      \<lparr>domain = extractDomain H domainUrl, urlsHash = generateUrlsHash urls, timestamp = now,
       ttl = ttlMs, sitewide = a, seo = b\<rparr>"
  defines "es \<equiv> sort_key snd (scanEntries (items st))"
  shows "(\<exists>st'. setAnalysis H now domainUrl urls a b ttlMs st = Inr st')
    \<and> (setItemThrows H st (key domainUrl urls) (EntryJson (entry domainUrl urls now ttlMs a b))
          = Some QuotaExceededError
        \<longrightarrow> setAnalysis H now domainUrl urls a b ttlMs st
          = Inr (case setItem H (key domainUrl urls) (entry domainUrl urls now ttlMs a b)
                        (clearOldestEntries 5 st) of
                   Inl retryError \<Rightarrow> clearOldestEntries 5 st
                 | Inr st2 \<Rightarrow> st2))
    \<and> items (clearOldestEntries 5 st) = filter (\<lambda>(k, v). k \<notin> fst ` set (take 5 es)) (items st)
    \<and> metadataItem (clearOldestEntries 5 st) = metadataItem st
    \<and> length (take 5 es) = min 5 (length (scanEntries (items st)))
    \<and> mset (take 5 es @ drop 5 es) = mset (scanEntries (items st))
    \<and> (\<forall>x \<in> set (take 5 es). \<forall>y \<in> set (drop 5 es). snd x \<le> snd y)"
  unfolding key_def entry_def es_def
  using setAnalysis_total [of H now domainUrl urls a b ttlMs st]
    setAnalysis_quota_path [of H st domainUrl urls now ttlMs a b]
    clearOldestEntries_removes [of 5 st]
  by blast

theorem setAnalysis_quota_recovery_witness:
  "setItemThrows oneSlotHost \<lparr>metadataItem = None, items = [oldEntry], timers = []\<rparr>
      (generateCacheKey (js ''a.com'') (generateUrlsHash []))
      (EntryJson \<lparr>domain = js ''a.com'', urlsHash = generateUrlsHash [], timestamp = 1000,
         ttl = DEFAULT_TTL_MS, sitewide = True, seo = True\<rparr>) = Some QuotaExceededError
   \<and> setAnalysis oneSlotHost 1000 (js ''a.com'') [] True True DEFAULT_TTL_MS
        \<lparr>metadataItem = None, items = [oldEntry], timers = []\<rparr>
     = Inr \<lparr>metadataItem = None,
         items = [(generateCacheKey (js ''a.com'') (generateUrlsHash []),
            Parsed \<lparr>domain = js ''a.com'', urlsHash = generateUrlsHash [], timestamp = 1000,
              ttl = DEFAULT_TTL_MS, sitewide = True, seo = True\<rparr>)],
         timers = []\<rparr>"
  using setAnalysis_quota_recovery [where H = oneSlotHost
      and st = "\<lparr>metadataItem = None, items = [oldEntry], timers = []\<rparr>"
      and domainUrl = "js ''a.com''" and urls = "[]" and now = 1000 and ttlMs = DEFAULT_TTL_MS
      and a = True and b = True]
  by (simp add: extractDomain_def clearOldestEntries_single [of 4, simplified] setItem_def)

lemma getMetadata_Parsed [simp]:
  "metadataItem st = Some (Parsed m) \<Longrightarrow> getMetadata now st = m"
  by (simp add: getMetadata_def)

lemma entries_getMetadata_now: "entries (getMetadata t st) = entries (getMetadata t' st)"
  by (simp add: getMetadata_def split: option.splits parsed.splits)

lemma setItem_accepted:
  "setItemThrows H st k (EntryJson v) = None
    \<Longrightarrow> setItem H k v st = Inr (st\<lparr>items := AList.update k (Parsed v) (items st)\<rparr>)"
  by (simp add: setItem_def)

lemma updateMetadata_accepted:
  "setItemThrows H st metadataKey (MetadataJson (u (getMetadata now st))) = None
    \<Longrightarrow> updateMetadata H now u st = st\<lparr>metadataItem := Some (Parsed (u (getMetadata now st)))\<rparr>"
  by (simp add: updateMetadata_def Let_def setMetadataItem_def)

lemma setAnalysis_accepted:
  assumes "\<forall>s k w. setItemThrows H s k w = None"
  shows "setAnalysis H now domainUrl urls a b ttlMs st =
    Inr (st\<lparr>items := AList.update
             (generateCacheKey (extractDomain H domainUrl) (generateUrlsHash urls))
             (Parsed \<lparr>domain = extractDomain H domainUrl, urlsHash = generateUrlsHash urls,
                timestamp = now, ttl = ttlMs, sitewide = a, seo = b\<rparr>) (items st),
           metadataItem := Some (Parsed ((getMetadata now st)
              \<lparr>entries := entries (getMetadata now st) + 1\<rparr>)),
           timers := timers st @ [EnforceCacheLimit]\<rparr>)"
  using assms
  by (simp add: setAnalysis_def Let_def setAnalysis_try_def setItem_accepted
      updateMetadata_accepted setTimeout_def getMetadata_def)

lemma clearAnalysis_accepted:
  assumes "\<forall>s k w. setItemThrows H s k w = None"
  shows "clearAnalysis H now domainUrl urls st =
    st\<lparr>items := AList.delete
             (generateCacheKey (extractDomain H domainUrl) (generateUrlsHash urls)) (items st),
       metadataItem := Some (Parsed ((getMetadata now st)
              \<lparr>entries := max 0 (entries (getMetadata now st) - 1)\<rparr>))\<rparr>"
  using assms
  by (simp add: clearAnalysis_def Let_def removeItem_def updateMetadata_accepted getMetadata_def)

lemma count_key_update:
  "distinct (map fst al) \<Longrightarrow> length (filter (\<lambda>(k', v). k' = k) (AList.update k v al)) = 1"
proof (induction al)
  case Nil
  show ?case by simp
next
  case (Cons p al)
  show ?case
  proof (cases "fst p = k")
    case True
    with Cons.prems have "k \<notin> fst ` set al" by auto
    then have "filter (\<lambda>(k', v). k' = k) al = []"
      by (force simp: filter_empty_conv)
    with True show ?thesis by (cases p) simp
  next
    case False
    with Cons show ?thesis by (cases p) simp
  qed
qed

text \<open>
  Claim C9, as the code has it. In a browser that accepts every write: \<open>setAnalysis\<close> adds one
  to the counter of the metadata, also when the key was already there and the keys of the
  storage stay what they were; \<open>clearAnalysis\<close> with no item under the derived key leaves the
  items alone and takes one from the counter, not going below 0; and after two
  \<open>setAnalysis\<close> with the same domain URL and URL list, in a storage with distinct keys, one
  item has the derived key and the counter has gone up by two.
\<close>

theorem entry_counter_not_physical_count:
  fixes H :: "('a, 'b) host" and st :: "('a, 'b) browser"
  defines "key \<equiv> \<lambda>domainUrl urls. generateCacheKey (extractDomain H domainUrl) (generateUrlsHash urls)"
  assumes accepts: "\<forall>s k w. setItemThrows H s k w = None"
  shows "(\<exists>st1. setAnalysis H now domainUrl urls a b ttlMs st = Inr st1
            \<and> entries (getMetadata t st1) = entries (getMetadata t st) + 1
            \<and> (key domainUrl urls \<in> fst ` set (items st)
                 \<longrightarrow> map fst (items st1) = map fst (items st)))
    \<and> (getItem st (key domainUrl urls) = None
         \<longrightarrow> items (clearAnalysis H now domainUrl urls st) = items st
           \<and> entries (getMetadata t (clearAnalysis H now domainUrl urls st))
               = max 0 (entries (getMetadata t st) - 1))
    \<and> (distinct (map fst (items st))
         \<longrightarrow> (\<exists>st1 st2. setAnalysis H now domainUrl urls a b ttlMs st = Inr st1
               \<and> setAnalysis H now' domainUrl urls a' b' ttlMs' st1 = Inr st2
               \<and> length (filter (\<lambda>(k, v). k = key domainUrl urls) (items st2)) = 1
               \<and> entries (getMetadata t st2) = entries (getMetadata t st) + 2))"
proof (intro conjI impI)
  let ?k = "key domainUrl urls"
  show "\<exists>st1. setAnalysis H now domainUrl urls a b ttlMs st = Inr st1
            \<and> entries (getMetadata t st1) = entries (getMetadata t st) + 1
            \<and> (?k \<in> fst ` set (items st) \<longrightarrow> map fst (items st1) = map fst (items st))"
    using entries_getMetadata_now [of t st now]
    by (simp add: setAnalysis_accepted [OF accepts] key_def update_keys)
  show "items (clearAnalysis H now domainUrl urls st) = items st" if "getItem st ?k = None"
  proof -
    from that have "?k \<notin> fst ` set (items st)"
      by (simp add: getItem_def map_of_eq_None_iff)
    then show ?thesis
      by (simp add: clearAnalysis_accepted [OF accepts] key_def)
  qed
  show "entries (getMetadata t (clearAnalysis H now domainUrl urls st))
               = max 0 (entries (getMetadata t st) - 1)"
    using entries_getMetadata_now [of t st now]
    by (simp add: clearAnalysis_accepted [OF accepts])
  show "\<exists>st1 st2. setAnalysis H now domainUrl urls a b ttlMs st = Inr st1
               \<and> setAnalysis H now' domainUrl urls a' b' ttlMs' st1 = Inr st2
               \<and> length (filter (\<lambda>(k, v). k = ?k) (items st2)) = 1
               \<and> entries (getMetadata t st2) = entries (getMetadata t st) + 2"
    if d: "distinct (map fst (items st))"
  proof -
    show ?thesis
      using entries_getMetadata_now [of t st now] d
      by (simp add: setAnalysis_accepted [OF accepts] key_def count_key_update)
  qed
qed


theorem entry_counter_not_physical_count_witness:
  "(\<forall>s k w. setItemThrows (\<lparr>urlHostname = (\<lambda>u. None), setItemThrows = (\<lambda>s k w. None)\<rparr>
        :: (bool, bool) host) s k w = None)
   \<and> distinct (map fst (items (\<lparr>metadataItem = None, items = [], timers = []\<rparr> :: (bool, bool) browser)))
   \<and> (\<exists>st1 st2.
        setAnalysis \<lparr>urlHostname = (\<lambda>u. None), setItemThrows = (\<lambda>s k w. None)\<rparr> 1000
          (js ''a.com'') [] True True DEFAULT_TTL_MS
          \<lparr>metadataItem = None, items = [], timers = []\<rparr> = Inr st1
      \<and> setAnalysis \<lparr>urlHostname = (\<lambda>u. None), setItemThrows = (\<lambda>s k w. None)\<rparr> 2000
          (js ''a.com'') [] False False DEFAULT_TTL_MS st1 = Inr st2
      \<and> length (filter (\<lambda>(k, v). k = generateCacheKey (js ''a.com'') (generateUrlsHash []))
            (items st2)) = 1
      \<and> entries (getMetadata 0 st2) = 2)"
  using entry_counter_not_physical_count [where
      H = "\<lparr>urlHostname = (\<lambda>u. None), setItemThrows = (\<lambda>s k w. None)\<rparr>"
      and st = "\<lparr>metadataItem = None, items = [], timers = []\<rparr>"
      and domainUrl = "js ''a.com''" and urls = "[]" and now = 1000 and now' = 2000
      and a = True and b = True and a' = False and b' = False
      and ttlMs = DEFAULT_TTL_MS and ttlMs' = DEFAULT_TTL_MS and t = 0]
  by (simp add: extractDomain_def getMetadata_def)

text \<open>
  Claim C9 as stated has the counter incremented on every successful write. Here the first
  write fails on the quota, the old entry is evicted, the retry writes the new entry, and
  the counter is still 1: the handler of the quota error does not touch the metadata.
\<close>

theorem retry_write_counter_counterexample:
  "setAnalysis oneSlotHost 1000 (js ''a.com'') [] True True DEFAULT_TTL_MS
        \<lparr>metadataItem = Some (Parsed \<lparr>version = js ''1.0'', lastCleanup = 0, entries = 1\<rparr>),
          items = [oldEntry], timers = []\<rparr>
     = Inr \<lparr>metadataItem = Some (Parsed \<lparr>version = js ''1.0'', lastCleanup = 0, entries = 1\<rparr>),
         items = [(generateCacheKey (js ''a.com'') (generateUrlsHash []),
            Parsed \<lparr>domain = js ''a.com'', urlsHash = generateUrlsHash [], timestamp = 1000,
              ttl = DEFAULT_TTL_MS, sitewide = True, seo = True\<rparr>)],
         timers = []\<rparr>"
  by (simp add: setAnalysis_def Let_def setAnalysis_try_def setAnalysis_catch_def setItem_def
      extractDomain_def clearOldestEntries_single [of 4, simplified])

lemma update_absent: "k \<notin> fst ` set al \<Longrightarrow> AList.update k v al = al @ [(k, v)]"
  by (induction al) auto

lemma scanEntries_requestEntry:
  "scanEntries (map (requestEntry H) rs) = map (\<lambda>r. (requestKey H r, reqAt r)) rs"
  by (induction rs)
    (simp_all add: requestEntry_def requestKey_def startsWith_generateCacheKey
      generateCacheKey_neq_metadataKey)

lemma setAnalysis_request:
  assumes "\<forall>s k w. setItemThrows H s k w = None"
  shows "setAnalysis H (reqAt r) (reqDomainUrl r) (reqUrls r) (reqSitewide r) (reqSeo r)
           DEFAULT_TTL_MS st =
    Inr (st\<lparr>items := AList.update (requestKey H r) (snd (requestEntry H r)) (items st),
           metadataItem := Some (Parsed ((getMetadata (reqAt r) st)
              \<lparr>entries := entries (getMetadata (reqAt r) st) + 1\<rparr>)),
           timers := timers st @ [EnforceCacheLimit]\<rparr>)"
  by (simp add: setAnalysis_accepted [OF assms] requestKey_def requestEntry_def)

lemma getMetadata_updateMetadata:
  assumes "\<forall>s k w. setItemThrows H s k w = None"
  shows "getMetadata t (updateMetadata H now u st) = u (getMetadata now st)"
  using assms by (simp add: updateMetadata_accepted)

lemma filter_first_key:
  assumes "distinct (map (requestKey H) (x # xs))"
  shows "filter (\<lambda>(k, v). k \<notin> set [requestKey H x]) (map (requestEntry H) (x # xs))
           = map (requestEntry H) xs"
proof -
  have "requestKey H x \<notin> requestKey H ` set xs"
    using assms by simp
  then have "\<forall>y \<in> set xs. requestKey H y \<noteq> requestKey H x"
    by (metis imageI)
  then have "filter (\<lambda>(k, v). k \<noteq> requestKey H x) (map (requestEntry H) xs)
           = map (requestEntry H) xs"
    by (auto simp: filter_id_conv requestEntry_def)
  then show ?thesis
    by (simp add: requestEntry_def)
qed

lemma storeThenEnforce_inv:
  assumes accepts: "\<forall>s k w. setItemThrows H s k w = None"
    and inv: "storeInv H st past"
    and dist: "distinct (map (requestKey H) (past @ [r]))"
    and sorted: "sorted (map reqAt (past @ [r]))"
  shows "storeInv H (storeThenEnforce H r st) (past @ [r])"
proof -
  let ?n = "length past"
  let ?L = "drop (?n - 50) past"
  from inv have items: "items st = map (requestEntry H) ?L"
    and count: "entries (getMetadata 0 st) = int (min ?n 50)"
    and timers: "timers st = []"
    by (simp_all add: storeInv_def)
  have fresh: "requestKey H r \<notin> fst ` set (items st)"
  proof -
    have "fst ` set (items st) \<subseteq> requestKey H ` set past"
      unfolding items by (auto simp: requestEntry_def dest: in_set_dropD)
    with dist show ?thesis by auto
  qed
  define its where "its = map (requestEntry H) (?L @ [r])"
  define st1 where "st1 = st\<lparr>items := its,
           metadataItem := Some (Parsed ((getMetadata (reqAt r) st)
              \<lparr>entries := int (min ?n 50) + 1\<rparr>)),
           timers := [EnforceCacheLimit]\<rparr>"
  have set1: "setAnalysis H (reqAt r) (reqDomainUrl r) (reqUrls r) (reqSitewide r) (reqSeo r)
           DEFAULT_TTL_MS st = Inr st1"
    unfolding setAnalysis_request [OF accepts] update_absent [OF fresh] st1_def its_def
    using count entries_getMetadata_now [of 0 st "reqAt r"]
    by (simp add: timers items requestEntry_def)
  have step: "storeThenEnforce H r st = enforceCacheLimit H (reqAt r) (st1\<lparr>timers := []\<rparr>)"
    by (simp add: storeThenEnforce_def set1 runTimers_def runTask_def st1_def)
  have L: "?L @ [r] = drop (?n - 50) (past @ [r])"
    by simp
  show ?thesis
  proof (cases "?n < 50")
    case True
    then have "enforceCacheLimit H (reqAt r) (st1\<lparr>timers := []\<rparr>) = st1\<lparr>timers := []\<rparr>"
      by (simp add: enforceCacheLimit_def st1_def MAX_CACHE_SIZE_def)
    with True show ?thesis
      unfolding step by (simp add: storeInv_def st1_def its_def)
  next
    case False
    then have n: "50 \<le> ?n" by simp
    then have len: "length (?L @ [r]) = 51" by simp
    then obtain x xs where xs: "?L @ [r] = x # xs"
      by (cases "?L @ [r]") simp_all
    from len have lxs: "length xs = 50"
      unfolding xs by simp
    have srt: "sorted (map snd (map (\<lambda>r. (requestKey H r, reqAt r)) (x # xs)))"
    proof -
      have "sorted (map reqAt (drop (?n - 50) (past @ [r])))"
        using sorted by (simp only: drop_map [symmetric] sorted_wrt_drop)
      then show ?thesis
        unfolding L [symmetric] xs by (simp add: comp_def)
    qed
    have dst: "distinct (map (requestKey H) (x # xs))"
    proof -
      have "distinct (map (requestKey H) (drop (?n - 50) (past @ [r])))"
        using dist by (simp only: drop_map [symmetric] distinct_drop)
      then show ?thesis
        unfolding L [symmetric] xs .
    qed
    have es: "sort_key snd (scanEntries its) = map (\<lambda>r. (requestKey H r, reqAt r)) (x # xs)"
      unfolding its_def xs scanEntries_requestEntry using srt by (rule sort_key_id_if_sorted)
    have rm: "items (removeKeys [requestKey H x] (st1\<lparr>timers := []\<rparr>)) = map (requestEntry H) xs"
      unfolding items_removeKeys using filter_first_key [OF dst]
      by (simp add: st1_def its_def xs)
    have "enforceCacheLimit H (reqAt r) (st1\<lparr>timers := []\<rparr>)
            = updateMetadata H (reqAt r) (\<lambda>m. m\<lparr>entries := MAX_CACHE_SIZE\<rparr>)
                (removeKeys [requestKey H x] (st1\<lparr>timers := []\<rparr>))"
      using n lxs
      by (simp add: enforceCacheLimit_def Let_def st1_def es MAX_CACHE_SIZE_def)
    then have e: "storeThenEnforce H r st
            = updateMetadata H (reqAt r) (\<lambda>m. m\<lparr>entries := MAX_CACHE_SIZE\<rparr>)
                (removeKeys [requestKey H x] (st1\<lparr>timers := []\<rparr>))"
      unfolding step .
    have "xs = drop (length (past @ [r]) - 50) (past @ [r])"
    proof -
      have "drop 1 (?L @ [r]) = xs" unfolding xs by simp
      then have "xs = drop 1 (drop (?n - 50) (past @ [r]))" by simp
      also have "\<dots> = drop (1 + (?n - 50)) (past @ [r])"
        by (simp only: drop_drop)
      also have "1 + (?n - 50) = length (past @ [r]) - 50"
        using n by simp
      finally show ?thesis .
    qed
    moreover have "entries (getMetadata 0 (storeThenEnforce H r st)) = 50"
      unfolding e by (simp add: getMetadata_updateMetadata [OF accepts] MAX_CACHE_SIZE_def)
    ultimately show ?thesis
      unfolding storeInv_def using n
      by (simp add: e rm)
  qed
qed


lemma storeAll_inv:
  assumes accepts: "\<forall>s k w. setItemThrows H s k w = None"
  shows "storeInv H st past \<Longrightarrow> distinct (map (requestKey H) (past @ rs))
    \<Longrightarrow> sorted (map reqAt (past @ rs)) \<Longrightarrow> storeInv H (storeAll H rs st) (past @ rs)"
proof (induction rs arbitrary: st past)
  case Nil
  then show ?case by (simp add: storeAll_def)
next
  case (Cons r rs)
  have d: "distinct (map (requestKey H) (past @ [r]))"
    using Cons.prems(2) by auto
  have s: "sorted (map reqAt (past @ [r]))"
    using Cons.prems(3) by (auto simp: sorted_append)
  have "storeInv H (storeThenEnforce H r st) (past @ [r])"
    using accepts Cons.prems(1) d s by (rule storeThenEnforce_inv)
  then have "storeInv H (storeAll H rs (storeThenEnforce H r st)) ((past @ [r]) @ rs)"
    using Cons.prems(2,3) by (intro Cons.IH) simp_all
  then show ?case by (simp add: storeAll_def)
qed

lemma storeInv_empty: "storeInv H emptyBrowser []"
  by (simp add: storeInv_def emptyBrowser_def getMetadata_def)



lemma numberedRequest_keys: "distinct (map (\<lambda>i. requestKey acceptingHost (numberedRequest i)) [0..<n])"
proof -
  have "length (requestKey acceptingHost (numberedRequest i))
          = length CACHE_PREFIX + length (generateUrlsHash []) + 2 + i" for i
    by (simp add: requestKey_def extractDomain_def generateCacheKey_def js_def)
  then have "inj (\<lambda>i. requestKey acceptingHost (numberedRequest i))"
    by (intro injI) (metis add_left_cancel)
  then show ?thesis
    by (simp add: distinct_map inj_on_def)
qed

lemma numberedRequest_times: "sorted (map (\<lambda>i. reqAt (numberedRequest i)) [0..<n])"
  by (simp add: sorted_map sorted_wrt_iff_nth_less)



lemma scanEntries_one: "scanEntries [requestEntry H r] = [(requestKey H r, reqAt r)]"
  using scanEntries_requestEntry [of H "[r]"] by simp

lemma enforceCacheLimit_one:
  "enforceCacheLimit H now (st\<lparr>items := [requestEntry H' r], timers := []\<rparr>)
     = st\<lparr>items := [requestEntry H' r], timers := []\<rparr>"
  by (simp add: enforceCacheLimit_def Let_def scanEntries_one MAX_CACHE_SIZE_def)

lemma oneSlot_first:
  assumes "items st = []" "timers st = []"
  shows "storeThenEnforce oneSlotHost r st = st\<lparr>items := [requestEntry oneSlotHost r], timers := []\<rparr>"
  using assms
  by (simp add: storeThenEnforce_def setAnalysis_def Let_def setAnalysis_try_def setItem_def
      updateMetadata_def setMetadataItem_def setTimeout_def runTimers_def runTask_def
      enforceCacheLimit_one [where H' = oneSlotHost and r = r, unfolded requestEntry_def requestKey_def]
      requestEntry_def requestKey_def)

lemma oneSlot_next:
  assumes "items st = [requestEntry oneSlotHost r']" "timers st = []"
  shows "storeThenEnforce oneSlotHost r st = st\<lparr>items := [requestEntry oneSlotHost r]\<rparr>"
proof -
  have c: "clearOldestEntries 5 st = st\<lparr>items := []\<rparr>"
    unfolding clearOldestEntries_def assms(1) scanEntries_one
    by (simp add: removeKeys_def removeItem_def assms(1) requestEntry_def)
  show ?thesis
    using assms
    by (simp add: storeThenEnforce_def setAnalysis_def Let_def setAnalysis_try_def
        setItem_def [where st = st] setAnalysis_catch_def c setItem_def [where st = "st\<lparr>items := []\<rparr>"]
        runTimers_def requestEntry_def requestKey_def)
qed

lemma oneSlot_storeAll:
  "timers st = [] \<Longrightarrow> items st = [] \<or> (\<exists>r'. items st = [requestEntry oneSlotHost r'])
    \<Longrightarrow> rs \<noteq> []
    \<Longrightarrow> items (storeAll oneSlotHost rs st) = [requestEntry oneSlotHost (last rs)]"
proof (induction rs arbitrary: st)
  case Nil
  then show ?case by simp
next
  case (Cons r rs)
  let ?st = "storeThenEnforce oneSlotHost r st"
  from Cons.prems(1,2) have i: "items ?st = [requestEntry oneSlotHost r]" and t: "timers ?st = []"
    by (auto simp: oneSlot_first oneSlot_next)
  show ?case
  proof (cases "rs = []")
    case True
    with i show ?thesis by (simp add: storeAll_def)
  next
    case False
    with i t have "items (storeAll oneSlotHost rs ?st) = [requestEntry oneSlotHost (last rs)]"
      by (intro Cons.IH) auto
    with False show ?thesis by (simp add: storeAll_def)
  qed
qed



section \<open>Properties of the orchestrator\<close>

lemma of_char16_inject: "(of_char c :: 16 word) = of_char d \<longleftrightarrow> c = d"
proof -
  have b: "take_bit 16 (of_char x :: nat) = of_char x" for x
    by (rule take_bit_nat_eq_self) (simp add: order_less_trans [OF nat_of_char_less_256])
  have "(of_char c :: 16 word) = of_char d
      \<longleftrightarrow> (of_nat (of_char c) :: 16 word) = of_nat (of_char d)"
    by (simp add: of_nat_of_char)
  also have "\<dots> \<longleftrightarrow> (of_char c :: nat) = of_char d"
    by (simp add: word_of_nat_eq_iff b)
  also have "\<dots> \<longleftrightarrow> c = d"
    by simp
  finally show ?thesis .
qed

lemma js_inject [simp]: "js a = js b \<longleftrightarrow> a = b"
  by (auto simp: js_def of_char16_inject inj_on_def intro!: inj_on_map_eq_map [THEN iffD1, rotated])

subsection \<open>What the steps leave unchanged\<close>

lemma addLog_proj [simp]:
  "pipelineStages (addLog m t g st) = pipelineStages st"
  "invoked (addLog m t g st) = invoked st"
  "partialResults (addLog m t g st) = partialResults st"
  "clock (addLog m t g st) = clock st"
  "localStorage (addLog m t g st) = localStorage st"
  "appState (addLog m t g st) = appState st"
  "error (addLog m t g st) = error st"
  by (simp_all add: addLog_def)

lemma updateStage_proj [simp]:
  "invoked (updateStage i f st) = invoked st"
  "partialResults (updateStage i f st) = partialResults st"
  "clock (updateStage i f st) = clock st"
  "localStorage (updateStage i f st) = localStorage st"
  "appState (updateStage i f st) = appState st"
  "error (updateStage i f st) = error st"
  by (simp_all add: updateStage_def)

lemma invoke_proj [simp]:
  "pipelineStages (invoke c st) = pipelineStages st"
  "invoked (invoke c st) = invoked st @ [c]"
  "partialResults (invoke c st) = partialResults st"
  "clock (invoke c st) = clock st"
  "localStorage (invoke c st) = localStorage st"
  by (simp_all add: invoke_def)

lemma allStages_cong: "pipelineStages st' = pipelineStages st \<Longrightarrow> allStages P st' = allStages P st"
  by (simp add: allStages_def)

lemma allStages_updateStage:
  assumes "allStages P st" and "\<And>s. P s \<Longrightarrow> id' s = i \<Longrightarrow> P (f s)"
  shows "allStages P (updateStage i f st)"
  using assms by (auto simp: allStages_def updateStage_def)

lemma awaitCall_proj:
  assumes "\<And>m s. invoked (onM m s) = invoked s" "\<And>m s. partialResults (onM m s) = partialResults s"
  shows "invoked (awaitCall env onM b st) = invoked st"
    and "partialResults (awaitCall env onM b st) = partialResults st"
proof -
  have "invoked (foldl (\<lambda>s (t, m). onM m (s\<lparr>clock := t\<rparr>)) s0 cs) = invoked s0
      \<and> partialResults (foldl (\<lambda>s (t, m). onM m (s\<lparr>clock := t\<rparr>)) s0 cs) = partialResults s0"
    for s0 cs
    by (induction cs arbitrary: s0) (auto simp: assms)
  then show "invoked (awaitCall env onM b st) = invoked st"
    and "partialResults (awaitCall env onM b st) = partialResults st"
    by (simp_all add: awaitCall_def Let_def)
qed

lemma awaitCall_allStages:
  assumes "allStages P st" and "\<And>m s. allStages P s \<Longrightarrow> allStages P (onM m s)"
  shows "allStages P (awaitCall env onM b st)"
proof -
  have "allStages P s0 \<Longrightarrow> allStages P (foldl (\<lambda>s (t, m). onM m (s\<lparr>clock := t\<rparr>)) s0 cs)"
    for s0 cs
  proof (induction cs arbitrary: s0)
    case Nil
    then show ?case by simp
  next
    case (Cons c cs)
    have "allStages P (s0\<lparr>clock := fst c\<rparr>)"
      using Cons.prems by (simp add: allStages_def)
    then have "allStages P (onM (snd c) (s0\<lparr>clock := fst c\<rparr>))"
      by (rule assms(2))
    then show ?case
      using Cons.IH by (simp add: case_prod_beta)
  qed
  from this [of "st\<lparr>localStorage := runTimers (storageHost env) (clock st) (localStorage st)\<rparr>"]
  show ?thesis
    using assms(1) by (simp add: awaitCall_def Let_def allStages_def)
qed


lemma stateAtExit_simps [simp]:
  "stateAtExit (Inl (e, st)) = st" "stateAtExit (Inr st) = st"
  by (simp_all add: stateAtExit_def)

lemma analysisDone_other:
  "allStages analysisDone st \<Longrightarrow> i \<in> {js ''actionplan'', js ''summary''}
    \<Longrightarrow> (\<And>s. id' (f s) = id' s) \<Longrightarrow> allStages analysisDone (updateStage i f st)"
  by (rule allStages_updateStage) (auto simp: analysisDone_def)

lemma id'_mark [simp]:
  "id' (markRunning t task s) = id' s" "id' (markComplete t s) = id' s"
  by (simp_all add: markRunning_def markComplete_def)

lemma onActionPlanMessage_proj [simp]:
  "invoked (onActionPlanMessage m st) = invoked st"
  "partialResults (onActionPlanMessage m st) = partialResults st"
  by (simp_all add: onActionPlanMessage_def)

lemma onActionPlanMessage_done:
  "allStages analysisDone st \<Longrightarrow> allStages analysisDone (onActionPlanMessage m st)"
  unfolding onActionPlanMessage_def
  by (subst allStages_cong [OF addLog_proj(1)]) (rule analysisDone_other, simp_all)

lemma actionPlanStage_effect:
  fixes st0 :: "('a, 'b, 's, 'p) app" and env l t d sw seoR
  defines "r \<equiv> actionPlanStage env l t d sw seoR st0"
  shows "invoked (stateAtExit r) = invoked st0 @ [ActionPlanCall sw seoR]"
    and "allStages analysisDone st0 \<Longrightarrow> allStages analysisDone (stateAtExit r)"
    and "(case outcome (createActionPlan env sw seoR) of
            Rejected e \<Rightarrow> \<exists>st'. r = Inl (e, st') \<and> partialResults st' = partialResults st0
          | Resolved plan \<Rightarrow> \<exists>st'. r = Inr st'
              \<and> partialResults st' = (partialResults st0)\<lparr>actionPlan := Some plan\<rparr>)"
proof -
  let ?st2 = "updateStage (js ''actionplan'') (markRunning (clock st0) t)
                (addLog l Ai (Some (js ''actionplan'')) st0)"
  let ?st3 = "awaitCall env onActionPlanMessage (createActionPlan env sw seoR)
                (invoke (ActionPlanCall sw seoR) ?st2)"
  have i3: "invoked ?st3 = invoked st0 @ [ActionPlanCall sw seoR]"
    by (simp add: awaitCall_proj)
  have p3: "partialResults ?st3 = partialResults st0"
    by (simp add: awaitCall_proj)
  have a3: "allStages analysisDone ?st3" if "allStages analysisDone st0"
  proof (rule awaitCall_allStages [OF _ onActionPlanMessage_done])
    have "allStages analysisDone ?st2"
      by (rule analysisDone_other) (simp_all add: allStages_cong [OF addLog_proj(1)] that)
    then show "allStages analysisDone (invoke (ActionPlanCall sw seoR) ?st2)"
      by (simp add: allStages_cong [OF invoke_proj(1)])
  qed
  show "invoked (stateAtExit r) = invoked st0 @ [ActionPlanCall sw seoR]"
    using i3 by (simp add: r_def actionPlanStage_def Let_def split: outcome.splits)
  show "allStages analysisDone (stateAtExit r)" if "allStages analysisDone st0"
  proof (cases "outcome (createActionPlan env sw seoR)")
    case (Rejected e)
    with a3 [OF that] show ?thesis
      by (simp add: r_def actionPlanStage_def Let_def)
  next
    case (Resolved plan)
    have "allStages analysisDone (updateStage (js ''actionplan'') (markComplete (clock ?st3)) ?st3)"
      by (rule analysisDone_other [OF a3 [OF that]]) simp_all
    with Resolved show ?thesis
      by (simp add: r_def actionPlanStage_def Let_def allStages_def)
  qed
  show "(case outcome (createActionPlan env sw seoR) of
            Rejected e \<Rightarrow> \<exists>st'. r = Inl (e, st') \<and> partialResults st' = partialResults st0
          | Resolved plan \<Rightarrow> \<exists>st'. r = Inr st'
              \<and> partialResults st' = (partialResults st0)\<lparr>actionPlan := Some plan\<rparr>)"
    using p3 by (simp add: r_def actionPlanStage_def Let_def split: outcome.splits)
qed

lemma summaryStage_effect:
  fixes st0 :: "('a, 'b, 's, 'p) app" and env t sw seoR
  defines "r \<equiv> summaryStage env t sw seoR st0"
  shows "invoked (stateAtExit r) = invoked st0 @ [ExecutiveSummaryCall sw seoR]"
    and "allStages analysisDone st0 \<Longrightarrow> allStages analysisDone (stateAtExit r)"
    and "(case outcome (generateExecutiveSummary env sw seoR) of
            Rejected e \<Rightarrow> \<exists>st'. r = Inl (e, st') \<and> partialResults st' = partialResults st0
          | Resolved summary \<Rightarrow> \<exists>st'. r = Inr st'
              \<and> partialResults st' = (partialResults st0)\<lparr>executiveSummary := Some summary\<rparr>)"
proof -
  let ?st2 = "updateStage (js ''summary'') (markRunning (clock st0) t)
                (addLog (js ''Synthesizing executive summary...'') Ai (Some (js ''summary'')) st0)"
  let ?st3 = "awaitCall env (\<lambda>m s. s) (generateExecutiveSummary env sw seoR)
                (invoke (ExecutiveSummaryCall sw seoR) ?st2)"
  have i3: "invoked ?st3 = invoked st0 @ [ExecutiveSummaryCall sw seoR]"
    by (simp add: awaitCall_proj)
  have p3: "partialResults ?st3 = partialResults st0"
    by (simp add: awaitCall_proj)
  have a3: "allStages analysisDone ?st3" if "allStages analysisDone st0"
  proof (rule awaitCall_allStages)
    have "allStages analysisDone ?st2"
      by (rule analysisDone_other) (simp_all add: allStages_cong [OF addLog_proj(1)] that)
    then show "allStages analysisDone (invoke (ExecutiveSummaryCall sw seoR) ?st2)"
      by (simp add: allStages_cong [OF invoke_proj(1)])
  qed
  show "invoked (stateAtExit r) = invoked st0 @ [ExecutiveSummaryCall sw seoR]"
    using i3 by (simp add: r_def summaryStage_def Let_def split: outcome.splits)
  show "allStages analysisDone (stateAtExit r)" if "allStages analysisDone st0"
  proof (cases "outcome (generateExecutiveSummary env sw seoR)")
    case (Rejected e)
    with a3 [OF that] show ?thesis
      by (simp add: r_def summaryStage_def Let_def)
  next
    case (Resolved summary)
    have "allStages analysisDone (updateStage (js ''summary'') (markComplete (clock ?st3)) ?st3)"
      by (rule analysisDone_other [OF a3 [OF that]]) simp_all
    with Resolved show ?thesis
      by (simp add: r_def summaryStage_def Let_def allStages_def)
  qed
  show "(case outcome (generateExecutiveSummary env sw seoR) of
            Rejected e \<Rightarrow> \<exists>st'. r = Inl (e, st') \<and> partialResults st' = partialResults st0
          | Resolved summary \<Rightarrow> \<exists>st'. r = Inr st'
              \<and> partialResults st' = (partialResults st0)\<lparr>executiveSummary := Some summary\<rparr>)"
    using p3 by (simp add: r_def summaryStage_def Let_def split: outcome.splits)
qed

lemma saveAnalysis_effect [simp]:
  "invoked (stateAtExit (saveAnalysis env st)) = invoked st"
  "partialResults (stateAtExit (saveAnalysis env st)) = partialResults st"
  "pipelineStages (stateAtExit (saveAnalysis env st)) = pipelineStages st"
  by (simp_all add: saveAnalysis_def split: option.splits)


lemma stageIds_cong: "pipelineStages st' = pipelineStages st \<Longrightarrow> stageIds st' = stageIds st"
  by (simp add: stageIds_def)

lemma stageIds_updateStage:
  "(\<And>s. id' (f s) = id' s) \<Longrightarrow> stageIds (updateStage i f st) = stageIds st"
  by (simp add: stageIds_def updateStage_def)

lemma stageIds_simps [simp]:
  "stageIds (addLog m t g st) = stageIds st"
  "stageIds (invoke c st) = stageIds st"
  "stageIds (updateStage i (markRunning t' task) st) = stageIds st"
  "stageIds (updateStage i (markComplete t') st) = stageIds st"
  "stageIds (updateStage i (\<lambda>s. s\<lparr>currentTask := x\<rparr>) st) = stageIds st"
  "stageIds (st\<lparr>partialResults := pr\<rparr>) = stageIds st"
  "stageIds (st\<lparr>appState := a\<rparr>) = stageIds st"
  by (simp_all add: stageIds_updateStage) (simp_all add: stageIds_def)

lemma awaitCall_stageIds:
  assumes "\<And>m s. stageIds (onM m s) = stageIds s"
  shows "stageIds (awaitCall env onM b st) = stageIds st"
proof -
  have "stageIds (foldl (\<lambda>s (t, m). onM m (s\<lparr>clock := t\<rparr>)) s0 cs) = stageIds s0" for s0 cs
    by (induction cs arbitrary: s0) (auto simp: assms, simp add: stageIds_def)
  then show ?thesis
    by (simp add: awaitCall_def Let_def) (simp add: stageIds_def)
qed

lemma awaitCall_clock_storage:
  "clock (awaitCall env onM b st) = settledAt b"
  by (simp add: awaitCall_def Let_def)

lemma actionPlanStage_stageIds:
  "stageIds (stateAtExit (actionPlanStage env l t d sw seoR st0)) = stageIds st0"
  by (simp add: actionPlanStage_def Let_def awaitCall_stageIds onActionPlanMessage_def
      split: outcome.splits)

lemma summaryStage_stageIds:
  "stageIds (stateAtExit (summaryStage env t sw seoR st0)) = stageIds st0"
  by (simp add: summaryStage_def Let_def awaitCall_stageIds split: outcome.splits)

lemma onCrawlProgress_proj [simp]:
  "invoked (onCrawlProgress p st) = invoked st"
  "partialResults (onCrawlProgress p st) = partialResults st"
  "stageIds (onCrawlProgress p st) = stageIds st"
  by (simp_all add: onCrawlProgress_def Let_def stageIds_updateStage) (simp add: stageIds_def)

lemma crawlStart_proj:
  "invoked (crawlStart env data st0)
     = invoked st0 @ [CrawlSitemapCall (urlToString env (sitemapUrl data))]"
  "stageIds (crawlStart env data st0) = stageIds st0"
  "partialResults (crawlStart env data st0) = partialResults st0"
  by (simp_all add: crawlStart_def Let_def awaitCall_proj awaitCall_stageIds)

lemma crawlDone_Inr:
  assumes "crawlDone all st3 = Inr (st1, urls)"
  shows "invoked st1 = invoked st3" and "stageIds st1 = stageIds st3"
    and "urls = all" and "urls \<noteq> []"
proof -
  have ne: "all \<noteq> []"
    using assms by (cases "all = []") (simp_all add: crawlDone_def Let_def)
  then have "invoked (fst (projr (crawlDone all st3))) = invoked st3"
    "stageIds (fst (projr (crawlDone all st3))) = stageIds st3"
    "snd (projr (crawlDone all st3)) = all"
    by (simp_all add: crawlDone_def Let_def) (simp add: stageIds_def updateStage_def markComplete_def comp_def)
  then show "invoked st1 = invoked st3" "stageIds st1 = stageIds st3" "urls = all"
    unfolding assms by simp_all
  with ne show "urls \<noteq> []" by simp
qed

lemma crawlStage_Inr:
  assumes "crawlStage env data st0 = Inr (st1, urls)"
  shows "invoked st1 = invoked st0 @ [CrawlSitemapCall (urlToString env (sitemapUrl data))]"
    and "stageIds st1 = stageIds st0"
    and "outcome (crawlSitemap env (urlToString env (sitemapUrl data))) = Resolved urls"
    and "urls \<noteq> []"
proof -
  obtain all where o: "outcome (crawlSitemap env (urlToString env (sitemapUrl data))) = Resolved all"
    using assms by (cases "outcome (crawlSitemap env (urlToString env (sitemapUrl data)))")
      (simp_all add: crawlStage_def)
  with assms have d: "crawlDone all (crawlStart env data st0) = Inr (st1, urls)"
    by (simp add: crawlStage_def)
  note crawlDone_Inr [OF d]
  then show "invoked st1 = invoked st0 @ [CrawlSitemapCall (urlToString env (sitemapUrl data))]"
    and "stageIds st1 = stageIds st0"
    and "outcome (crawlSitemap env (urlToString env (sitemapUrl data))) = Resolved urls"
    and "urls \<noteq> []"
    using o by (simp_all add: crawlStart_proj)
qed

lemma allStages_updateStage_set:
  assumes "\<And>s. id' s = i \<Longrightarrow> P (f s)"
    and "\<And>s. s \<in> set (pipelineStages st) \<Longrightarrow> id' s \<noteq> i \<Longrightarrow> P s"
  shows "allStages P (updateStage i f st)"
  using assms by (auto simp: allStages_def updateStage_def)

lemma markComplete_done:
  "allStages (\<lambda>s. id' s = j \<longrightarrow> status s = Complete \<and> progress s = 100)
     (updateStage j (markComplete t) st)"
  by (rule allStages_updateStage_set) (simp_all add: markComplete_def)

lemma markComplete_keep:
  "allStages (\<lambda>s. id' s = j \<longrightarrow> status s = Complete \<and> progress s = 100) st
    \<Longrightarrow> allStages (\<lambda>s. id' s = j \<longrightarrow> status s = Complete \<and> progress s = 100)
          (updateStage i (markComplete t) st)"
  by (rule allStages_updateStage) (simp_all add: markComplete_def)

lemma fastForward_done:
  "allStages analysisDone
     (foldl (\<lambda>s stageId. updateStage stageId (markComplete (clock s)) s) st
        [js ''rank'', js ''competitor'', js ''technical'', js ''content''])"
proof -
  let ?st4 = "updateStage (js ''content'') (markComplete (clock st))
     (updateStage (js ''technical'') (markComplete (clock st))
       (updateStage (js ''competitor'') (markComplete (clock st))
         (updateStage (js ''rank'') (markComplete (clock st)) st)))"
  have "allStages (\<lambda>s. id' s = js ''rank'' \<longrightarrow> status s = Complete \<and> progress s = 100) ?st4"
    by (intro markComplete_keep markComplete_done)
  moreover have "allStages (\<lambda>s. id' s = js ''competitor'' \<longrightarrow> status s = Complete \<and> progress s = 100) ?st4"
    by (intro markComplete_keep markComplete_done)
  moreover have "allStages (\<lambda>s. id' s = js ''technical'' \<longrightarrow> status s = Complete \<and> progress s = 100) ?st4"
    by (intro markComplete_keep markComplete_done)
  moreover have "allStages (\<lambda>s. id' s = js ''content'' \<longrightarrow> status s = Complete \<and> progress s = 100) ?st4"
    by (intro markComplete_done)
  ultimately have "allStages analysisDone ?st4"
    unfolding allStages_def analysisDone_def by (simp only: insert_iff empty_iff) metis
  then show ?thesis by (simp only: foldl.simps updateStage_proj)
qed

lemma fastForward_proj [simp]:
  "invoked (foldl (\<lambda>s stageId. updateStage stageId (markComplete (clock s)) s) st is) = invoked st"
  "stageIds (foldl (\<lambda>s stageId. updateStage stageId (markComplete (clock s)) s) st is) = stageIds st"
  by (induction "is" arbitrary: st) simp_all

lemma exit_via_save:
  "invoked (stateAtExit (case rs of Inl x \<Rightarrow> Inl x | Inr st \<Rightarrow> saveAnalysis env st))
     = invoked (stateAtExit rs)"
  "partialResults (stateAtExit (case rs of Inl x \<Rightarrow> Inl x | Inr st \<Rightarrow> saveAnalysis env st))
     = partialResults (stateAtExit rs)"
  "pipelineStages (stateAtExit (case rs of Inl x \<Rightarrow> Inl x | Inr st \<Rightarrow> saveAnalysis env st))
     = pipelineStages (stateAtExit rs)"
proof (atomize (full), cases rs)
  case (Inl x)
  then show "invoked (stateAtExit (case rs of Inl x \<Rightarrow> Inl x | Inr st \<Rightarrow> saveAnalysis env st))
       = invoked (stateAtExit rs)
     \<and> partialResults (stateAtExit (case rs of Inl x \<Rightarrow> Inl x | Inr st \<Rightarrow> saveAnalysis env st))
       = partialResults (stateAtExit rs)
     \<and> pipelineStages (stateAtExit (case rs of Inl x \<Rightarrow> Inl x | Inr st \<Rightarrow> saveAnalysis env st))
       = pipelineStages (stateAtExit rs)"
    by simp
next
  case (Inr st)
  then show "invoked (stateAtExit (case rs of Inl x \<Rightarrow> Inl x | Inr st \<Rightarrow> saveAnalysis env st))
       = invoked (stateAtExit rs)
     \<and> partialResults (stateAtExit (case rs of Inl x \<Rightarrow> Inl x | Inr st \<Rightarrow> saveAnalysis env st))
       = partialResults (stateAtExit rs)
     \<and> pipelineStages (stateAtExit (case rs of Inl x \<Rightarrow> Inl x | Inr st \<Rightarrow> saveAnalysis env st))
       = pipelineStages (stateAtExit rs)"
    by simp
qed

lemma cachedPath_effect:
  fixes st0 :: "('a, 'b, 's, 'p) app" and env urls sw seoR
  defines "r \<equiv> cachedPath env urls (sw, seoR) st0"
  shows "invoked (stateAtExit r) = invoked st0 @ ActionPlanCall sw seoR #
           (case outcome (createActionPlan env sw seoR) of
              Resolved plan \<Rightarrow> [ExecutiveSummaryCall sw seoR] | Rejected e \<Rightarrow> [])
    \<and> allStages analysisDone (stateAtExit r)
    \<and> stageIds (stateAtExit r) = stageIds st0
    \<and> sitewideAnalysis (partialResults (stateAtExit r)) = Some sw
    \<and> seoAnalysis (partialResults (stateAtExit r)) = Some seoR
    \<and> urlsDiscovered (partialResults (stateAtExit r)) = Some (length urls)"
proof -
  define st3 where "st3 =
    (foldl (\<lambda>s stageId. updateStage stageId (markComplete (clock s)) s)
       (addLog ([0xD83D, 0xDE80] @ js '' Cache hit! Using cached analysis...'') Success None st0)
       [js ''rank'', js ''competitor'', js ''technical'', js ''content''])
    \<lparr>partialResults :=
        \<lparr>sitewideAnalysis = Some sw, seoAnalysis = Some seoR, executiveSummary = None,
         actionPlan = None, urlsDiscovered = Some (length urls), urlsAnalyzed = None\<rparr>\<rparr>"
  define ra where "ra = actionPlanStage env (js ''Generating fresh action plan from cache...'')
      (js ''Creating implementation roadmap...'') (js ''Action plan generated'') sw seoR st3"
  have r: "r = (case ra of Inl x \<Rightarrow> Inl x
      | Inr st4 \<Rightarrow> (case summaryStage env (js ''Creating 80/20 analysis...'') sw seoR st4 of
          Inl x \<Rightarrow> Inl x | Inr st5 \<Rightarrow> saveAnalysis env st5))"
    unfolding r_def cachedPath_def Let_def st3_def ra_def fst_conv snd_conv ..
  have i3: "invoked st3 = invoked st0" and s3: "stageIds st3 = stageIds st0"
    unfolding st3_def by (simp_all only: fastForward_proj stageIds_simps addLog_proj)
      (simp_all add: stageIds_def)
  have a3: "allStages analysisDone st3"
    using fastForward_done [of "addLog ([0xD83D, 0xDE80] @ js '' Cache hit! Using cached analysis...'') Success None st0"]
    unfolding st3_def allStages_def by simp
  have p3: "partialResults st3 = \<lparr>sitewideAnalysis = Some sw, seoAnalysis = Some seoR,
         executiveSummary = None, actionPlan = None, urlsDiscovered = Some (length urls),
         urlsAnalyzed = None\<rparr>"
    unfolding st3_def by simp
  note ap = actionPlanStage_effect [where env = env and sw = sw and seoR = seoR and ?st0.0 = st3
      and l = "js ''Generating fresh action plan from cache...''"
      and t = "js ''Creating implementation roadmap...''" and d = "js ''Action plan generated''",
      folded ra_def]
    actionPlanStage_stageIds [where env = env and sw = sw and seoR = seoR and ?st0.0 = st3
      and l = "js ''Generating fresh action plan from cache...''"
      and t = "js ''Creating implementation roadmap...''" and d = "js ''Action plan generated''",
      folded ra_def]
  show ?thesis
  proof (cases "outcome (createActionPlan env sw seoR)")
    case (Rejected e)
    with ap(3) obtain st' where ra': "ra = Inl (e, st')" and p': "partialResults st' = partialResults st3"
      by auto
    have x: "stateAtExit r = st'"
      by (simp add: r ra')
    from ap(1,2,4) a3 have "invoked st' = invoked st0 @ [ActionPlanCall sw seoR]"
      "allStages analysisDone st'" "stageIds st' = stageIds st0"
      by (simp_all add: ra' i3 s3)
    then show ?thesis
      unfolding x Rejected by (simp add: p' p3)
  next
    case (Resolved plan)
    with ap(3) obtain st4 where ra': "ra = Inr st4"
      and p4: "partialResults st4 = (partialResults st3)\<lparr>actionPlan := Some plan\<rparr>"
      by auto
    from ap(1,2,4) a3 ra' have i4: "invoked st4 = invoked st0 @ [ActionPlanCall sw seoR]"
      and a4: "allStages analysisDone st4" and s4: "stageIds st4 = stageIds st0"
      by (simp_all add: i3 s3)
    define rs where "rs = summaryStage env (js ''Creating 80/20 analysis...'') sw seoR st4"
    note sm = summaryStage_effect [where env = env and sw = sw and seoR = seoR and ?st0.0 = st4
        and t = "js ''Creating 80/20 analysis...''", folded rs_def]
      summaryStage_stageIds [where env = env and sw = sw and seoR = seoR and ?st0.0 = st4
        and t = "js ''Creating 80/20 analysis...''", folded rs_def]
    have r': "r = (case rs of Inl x \<Rightarrow> Inl x | Inr st5 \<Rightarrow> saveAnalysis env st5)"
      by (simp add: r ra' rs_def)
    have pr: "partialResults (stateAtExit rs) = partialResults st4
        \<or> (\<exists>summ. partialResults (stateAtExit rs) = (partialResults st4)\<lparr>executiveSummary := Some summ\<rparr>)"
      using sm(3) by (cases "outcome (generateExecutiveSummary env sw seoR)") auto
    have "invoked (stateAtExit r) = invoked st0 @ [ActionPlanCall sw seoR, ExecutiveSummaryCall sw seoR]"
      unfolding r' exit_via_save sm(1) i4 by simp
    moreover have "allStages analysisDone (stateAtExit r)"
      using sm(2) [OF a4] unfolding r' allStages_def exit_via_save .
    moreover have "stageIds (stateAtExit r) = stageIds st0"
      using sm(4) s4 unfolding r' stageIds_def exit_via_save by simp
    moreover have "sitewideAnalysis (partialResults (stateAtExit r)) = Some sw"
      "seoAnalysis (partialResults (stateAtExit r)) = Some seoR"
      "urlsDiscovered (partialResults (stateAtExit r)) = Some (length urls)"
      unfolding r' exit_via_save using pr by (auto simp: p4 p3)
    ultimately show ?thesis
      unfolding Resolved by simp
  qed
qed


subsection \<open>The run as a whole\<close>

lemma handleSubmit_valid:
  assumes "sitemapUrl data \<noteq> []" "aiConfigured env"
    "urlHostname (storageHost env) (sitemapUrl data) = Some h"
  shows "handleSubmit env data st0 =
          (case tryBlock env data (initializeState st0) of
             Inr st1 \<Rightarrow> st1 | Inl (e, st1) \<Rightarrow> catchBlock e st1)"
  using assms by (simp add: handleSubmit_def)

lemma catchBlock_proj [simp]:
  "invoked (catchBlock e st) = invoked st"
  "partialResults (catchBlock e st) = partialResults st"
  "appState (catchBlock e st) = AppError"
  "error (catchBlock e st) = Some (errorMessageOf e)"
  "stageIds (catchBlock e st) = stageIds st"
  "pipelineStages (catchBlock e st)
     = map (\<lambda>s. if status s = Running then s\<lparr>status := Error\<rparr> else s) (pipelineStages st)"
  by (simp_all add: catchBlock_def Let_def stageIds_def comp_def if_distrib cong: if_cong)

lemma catchBlock_done:
  "allStages analysisDone st \<Longrightarrow> allStages analysisDone (catchBlock e st)"
  by (auto simp: allStages_def analysisDone_def)

lemma initializeState_proj [simp]:
  "invoked (initializeState st0) = []"
  "pipelineStages (initializeState st0) = initialStages"
  "partialResults (initializeState st0) = noResults"
  "localStorage (initializeState st0) = localStorage st0"
  "clock (initializeState st0) = clock st0"
  by (simp_all add: initializeState_def resetPipeline_def Let_def)

lemma initialStages_ids: "map id' initialStages = map fst PIPELINE_STAGE_DEFINITIONS"
  by (simp add: initialStages_def PIPELINE_STAGE_DEFINITIONS_def)

lemma tryBlock_hit:
  assumes "crawlStage env data st0 = Inr (st1, urls)"
    and "fst (getAnalysis (storageHost env) (clock st1) (url data) urls (localStorage st1))
           = Some (sw, seoR)"
  shows "tryBlock env data st0 =
     cachedPath env urls (sw, seoR)
       ((addLog (js ''Checking for cached analysis...'') Info None st1)
          \<lparr>localStorage :=
             snd (getAnalysis (storageHost env) (clock st1) (url data) urls (localStorage st1))\<rparr>)"
  using assms by (auto simp: tryBlock_def Let_def split: prod.splits)

lemma cache_hit_effect:
  fixes env :: "('a, 'b, 's, 'p) environment"
  assumes valid: "sitemapUrl data \<noteq> []" "aiConfigured env"
      "urlHostname (storageHost env) (sitemapUrl data) = Some h"
    and crawl: "crawlStage env data (initializeState st0) = Inr (st1, urls)"
    and hit: "fst (getAnalysis (storageHost env) (clock st1) (url data) urls (localStorage st1))
                = Some (sw, seoR)"
  shows "map id' (pipelineStages (handleSubmit env data st0)) = map fst PIPELINE_STAGE_DEFINITIONS"
    and "allStages analysisDone (handleSubmit env data st0)"
    and "invoked (handleSubmit env data st0) =
           CrawlSitemapCall (urlToString env (sitemapUrl data)) # ActionPlanCall sw seoR #
             (case outcome (createActionPlan env sw seoR) of
                Resolved plan \<Rightarrow> [ExecutiveSummaryCall sw seoR] | Rejected e \<Rightarrow> [])"
    and "sitewideAnalysis (partialResults (handleSubmit env data st0)) = Some sw"
    and "seoAnalysis (partialResults (handleSubmit env data st0)) = Some seoR"
proof -
  define st2 where "st2 = (addLog (js ''Checking for cached analysis...'') Info None st1)
          \<lparr>localStorage :=
             snd (getAnalysis (storageHost env) (clock st1) (url data) urls (localStorage st1))\<rparr>"
  define r where "r = cachedPath env urls (sw, seoR) st2"
  have t: "tryBlock env data (initializeState st0) = r"
    unfolding r_def st2_def using crawl hit by (rule tryBlock_hit)
  have i2: "invoked st2 = [CrawlSitemapCall (urlToString env (sitemapUrl data))]"
    and s2: "stageIds st2 = map fst PIPELINE_STAGE_DEFINITIONS"
    using crawlStage_Inr(1,2) [OF crawl]
    by (simp_all add: st2_def stageIds_def initialStages_ids)
  note c = cachedPath_effect [where env = env and urls = urls and sw = sw and seoR = seoR
      and ?st0.0 = st2, folded r_def]
  have f: "handleSubmit env data st0 = (case r of Inr s \<Rightarrow> s | Inl (e, s) \<Rightarrow> catchBlock e s)"
    unfolding handleSubmit_valid [OF valid] t ..
  have x: "invoked (handleSubmit env data st0) = invoked (stateAtExit r)"
    "partialResults (handleSubmit env data st0) = partialResults (stateAtExit r)"
    "stageIds (handleSubmit env data st0) = stageIds (stateAtExit r)"
    "allStages analysisDone (stateAtExit r) \<Longrightarrow> allStages analysisDone (handleSubmit env data st0)"
    unfolding f by (cases r; auto simp: catchBlock_done)+
  from c x show "map id' (pipelineStages (handleSubmit env data st0)) = map fst PIPELINE_STAGE_DEFINITIONS"
    and "allStages analysisDone (handleSubmit env data st0)"
    and "invoked (handleSubmit env data st0) =
           CrawlSitemapCall (urlToString env (sitemapUrl data)) # ActionPlanCall sw seoR #
             (case outcome (createActionPlan env sw seoR) of
                Resolved plan \<Rightarrow> [ExecutiveSummaryCall sw seoR] | Rejected e \<Rightarrow> [])"
    and "sitewideAnalysis (partialResults (handleSubmit env data st0)) = Some sw"
    and "seoAnalysis (partialResults (handleSubmit env data st0)) = Some seoR"
    by (simp_all add: i2 s2 stageIds_def [symmetric])
qed


lemma awaitCall_storage:
  assumes "\<And>m s. localStorage (onM m s) = localStorage s"
  shows "localStorage (awaitCall env onM b st)
           = runTimers (storageHost env) (clock st) (localStorage st)"
proof -
  have "localStorage (foldl (\<lambda>s (t, m). onM m (s\<lparr>clock := t\<rparr>)) s0 cs) = localStorage s0" for s0 cs
    by (induction cs arbitrary: s0) (auto simp: assms)
  then show ?thesis
    by (simp add: awaitCall_def Let_def)
qed

lemma crawlStart_clock_storage:
  "clock (crawlStart env data st0) = settledAt (crawlSitemap env (urlToString env (sitemapUrl data)))"
  "localStorage (crawlStart env data st0)
     = runTimers (storageHost env) (clock st0) (localStorage st0)"
  by (simp_all add: crawlStart_def Let_def awaitCall_clock_storage awaitCall_storage
      onCrawlProgress_def)

lemma crawlDone_clock_storage:
  assumes "all \<noteq> []"
  shows "\<exists>st1. crawlDone all st3 = Inr (st1, all) \<and> clock st1 = clock st3
           \<and> localStorage st1 = localStorage st3"
  using assms by (simp add: crawlDone_def Let_def)

lemma runTimers_none: "timers st = [] \<Longrightarrow> runTimers H t st = st"
  by (simp add: runTimers_def)


lemma example_crawl:
  "\<exists>st1. crawlStage (exampleEnv (Resolved [js ''https://a.com/1'']) planned) exampleData
            (initializeState cachedApp) = Inr (st1, [js ''https://a.com/1''])
     \<and> fst (getAnalysis exampleHost (clock st1) (url exampleData) [js ''https://a.com/1'']
              (localStorage st1)) = Some (True, True)"
proof -
  let ?env = "exampleEnv (Resolved [js ''https://a.com/1'']) planned"
  let ?st3 = "crawlStart ?env exampleData (initializeState cachedApp)"
  obtain st1 where c: "crawlDone [js ''https://a.com/1''] ?st3 = Inr (st1, [js ''https://a.com/1''])"
    and k: "clock st1 = clock ?st3" and l: "localStorage st1 = localStorage ?st3"
    using crawlDone_clock_storage [of "[js ''https://a.com/1'']" ?st3] by auto
  have "crawlStage ?env exampleData (initializeState cachedApp) = Inr (st1, [js ''https://a.com/1''])"
    using c by (simp add: crawlStage_def)
  moreover have "fst (getAnalysis exampleHost (clock st1) (url exampleData) [js ''https://a.com/1'']
              (localStorage st1)) = Some (True, True)"
    unfolding k l crawlStart_clock_storage
    by (simp add: initialApp_def runTimers_none getAnalysis_def Let_def extractDomain_def
        getItem_def setTimeout_def DEFAULT_TTL_MS_def)
  ultimately show ?thesis by blast
qed





lemma tryBlock_crawl_rejected:
  "outcome (crawlSitemap env (urlToString env (sitemapUrl data))) = Rejected e
    \<Longrightarrow> tryBlock env data st = Inl (e, crawlStart env data st)"
  by (simp add: tryBlock_def crawlStage_def)


text \<open>
  Claim C10. The handler of a failed run maps over the stages and changes the status of
  those that are \<^verbatim>\<open>running\<close>, and nothing else: the list keeps its length, a stage whose
  status is not \<^verbatim>\<open>running\<close> (\<^verbatim>\<open>pending\<close>, \<^verbatim>\<open>complete\<close>, \<^verbatim>\<open>skipped\<close> or \<^verbatim>\<open>error\<close>) is the
  stage it was, with its progress and its times, and a \<^verbatim>\<open>running\<close> stage differs from what
  it was in its status only.
\<close>

theorem catchBlock_frame:
  "length (pipelineStages (catchBlock e st)) = length (pipelineStages st)
   \<and> (\<forall>i < length (pipelineStages st).
        (status (pipelineStages st ! i) \<noteq> Running
           \<longrightarrow> pipelineStages (catchBlock e st) ! i = pipelineStages st ! i)
      \<and> (status (pipelineStages st ! i) = Running
           \<longrightarrow> pipelineStages (catchBlock e st) ! i = (pipelineStages st ! i)\<lparr>status := Error\<rparr>))"
  by simp

theorem catchBlock_frame_witness:
  "(1::nat) < length (pipelineStages ((initialApp :: (bool, bool, bool, bool) app)
      \<lparr>pipelineStages :=
         [\<lparr>id' = js ''crawl'', name = [], description = [], status = Running, progress = 40,
            itemsProcessed = Some 2, totalItems = Some 5, currentTask = None,
            startTime = Some 7, endTime = None\<rparr>,
          \<lparr>id' = js ''rank'', name = [], description = [], status = Pending, progress = 0,
            itemsProcessed = None, totalItems = None, currentTask = None,
            startTime = None, endTime = None\<rparr>]\<rparr>))
   \<and> pipelineStages (catchBlock NonError ((initialApp :: (bool, bool, bool, bool) app)
      \<lparr>pipelineStages :=
         [\<lparr>id' = js ''crawl'', name = [], description = [], status = Running, progress = 40,
            itemsProcessed = Some 2, totalItems = Some 5, currentTask = None,
            startTime = Some 7, endTime = None\<rparr>,
          \<lparr>id' = js ''rank'', name = [], description = [], status = Pending, progress = 0,
            itemsProcessed = None, totalItems = None, currentTask = None,
            startTime = None, endTime = None\<rparr>]\<rparr>)) ! 1
     = \<lparr>id' = js ''rank'', name = [], description = [], status = Pending, progress = 0,
            itemsProcessed = None, totalItems = None, currentTask = None,
            startTime = None, endTime = None\<rparr>"
  using catchBlock_frame [where e = NonError and st = "(initialApp :: (bool, bool, bool, bool) app)
      \<lparr>pipelineStages :=
         [\<lparr>id' = js ''crawl'', name = [], description = [], status = Running, progress = 40,
            itemsProcessed = Some 2, totalItems = Some 5, currentTask = None,
            startTime = Some 7, endTime = None\<rparr>,
          \<lparr>id' = js ''rank'', name = [], description = [], status = Pending, progress = 0,
            itemsProcessed = None, totalItems = None, currentTask = None,
            startTime = None, endTime = None\<rparr>]\<rparr>"]
  by simp

end
